(* ===== verification/Prelude.thy ===== *)
theory Prelude
  imports Main "HOL-Library.Word"
begin

text \<open>
  Shared vocabulary of the development: the lemma collections the component theories
  feed, the names of the model's basic types, and generic facts on lists and options
  used by several components (JavaScript array reads, \<open>Array.prototype.join\<close>).
\<close>

named_theorems js_simps "evaluation rules of the modelled JavaScript built-ins"
named_theorems page_simps "evaluation rules of the page's handlers and steps"

text \<open>
  A JavaScript string is a sequence of UTF-16 code units. The model's strings are
  Isabelle strings, whose characters are read as the code points U+0000 to U+00FF
  (each one UTF-16 code unit).
\<close>

type_synonym js_string = string

text \<open>
  An XMLHttpRequest's \<open>status\<close> attribute is an \<open>unsigned short\<close>: a 16-bit word.
\<close>

type_synonym http_status = "16 word"

subsection \<open>Reading an array element\<close>

text \<open>\<open>a[i]\<close> on a JavaScript array: \<open>undefined\<close> (here \<open>None\<close>) out of range.\<close>

fun js_nth :: "'a list \<Rightarrow> nat \<Rightarrow> 'a option" where
  "js_nth [] n = None"
| "js_nth (x # xs) 0 = Some x"
| "js_nth (x # xs) (Suc n) = js_nth xs n"

lemma js_nth_conv [simp]:
  "js_nth xs n = (if n < length xs then Some (xs ! n) else None)"
  by (induction xs n rule: js_nth.induct) auto

subsection \<open>Joining with a separator\<close>

text \<open>\<open>Array.prototype.join(sep)\<close> on an array of strings.\<close>

fun join_with :: "'a list \<Rightarrow> 'a list list \<Rightarrow> 'a list" where
  "join_with sep [] = []"
| "join_with sep [w] = w"
| "join_with sep (w # v # ws) = w @ sep @ join_with sep (v # ws)"

lemma join_with_Cons [simp]:
  "ws \<noteq> [] \<Longrightarrow> join_with sep (w # ws) = w @ sep @ join_with sep ws"
  by (cases ws) auto

lemma join_with_singleton_hd:
  "join_with sep ((x # w) # ws) = x # join_with sep (w # ws)"
  by (cases ws) auto

lemma set_join_with:
  "set (join_with sep ws) \<subseteq> \<Union> (set ` set ws) \<union> set sep"
  by (induction sep ws rule: join_with.induct) auto

lemma join_with_map_Cons:
  "xs \<noteq> [] \<Longrightarrow> join_with sep (map f xs) = f (hd xs) @ concat (map (\<lambda>x. sep @ f x) (tl xs))"
proof (induction xs)
  case Nil
  then show ?case by simp
next
  case (Cons x xs)
  then show ?case by (cases xs) auto
qed

lemma length_join_with:
  "ws \<noteq> [] \<Longrightarrow> length (join_with sep ws) + length sep = sum_list (map (\<lambda>w. length w + length sep) ws)"
  by (induction sep ws rule: join_with.induct) auto

end
