(* ===== verification/Js_String.thy ===== *)
theory Js_String
  imports Prelude
begin

text \<open>
  The ECMAScript string built-ins that \<open>Request.js\<close> calls:
  \<open>String.prototype.split\<close> with a one-character separator (\<open>input.split("*")\<close>),
  \<open>String.prototype.toUpperCase\<close>, \<open>String.prototype.slice\<close> and
  \<open>String.prototype.concat\<close>, and the conversion of an integral Number to a
  string (\<open>status + " NOT FOUND"\<close>). Each is written after its algorithm in the
  ECMAScript specification, restricted to the strings of the model.
\<close>

subsection \<open>\<open>String.prototype.split\<close> with a one-character separator\<close>

text \<open>
  The specification scans the string left to right; each occurrence of the separator
  ends the current substring. The empty string splits into one empty substring.
\<close>

fun split_acc :: "char \<Rightarrow> js_string \<Rightarrow> js_string \<Rightarrow> js_string list" where
  "split_acc c cur [] = [cur]"
| "split_acc c cur (x # xs) =
     (if x = c then cur # split_acc c [] xs else split_acc c (cur @ [x]) xs)"

definition js_split :: "char \<Rightarrow> js_string \<Rightarrow> js_string list" where
  "js_split c s = split_acc c [] s"

lemma split_acc_nonempty [simp]: "split_acc c cur s \<noteq> []"
  by (induction c cur s rule: split_acc.induct) auto

lemma split_acc_length:
  "length (split_acc c cur s) = Suc (count_list s c)"
  by (induction c cur s rule: split_acc.induct) auto

lemma split_acc_no_sep:
  "c \<notin> set cur \<Longrightarrow> w \<in> set (split_acc c cur s) \<Longrightarrow> c \<notin> set w"
  by (induction c cur s rule: split_acc.induct) (auto split: if_splits)

lemma split_acc_join:
  "join_with [c] (split_acc c cur s) = cur @ s"
  by (induction c cur s rule: split_acc.induct) auto

lemma split_acc_append:
  "split_acc c (a @ b) s = (a @ hd (split_acc c b s)) # tl (split_acc c b s)"
  by (induction s arbitrary: b) auto

lemma js_split_Nil [js_simps]: "js_split c [] = [[]]"
  by (simp add: js_split_def)

lemma js_split_Cons [js_simps]:
  "js_split c (x # xs) =
     (if x = c then [] # js_split c xs
      else (x # hd (js_split c xs)) # tl (js_split c xs))"
  using split_acc_append [of c "[x]" "[]" xs] by (simp add: js_split_def)

lemma js_split_nonempty [simp]: "js_split c s \<noteq> []"
  by (simp add: js_split_def)

lemma js_split_length: "length (js_split c s) = Suc (count_list s c)"
  by (simp add: js_split_def split_acc_length)

lemma js_split_no_sep: "w \<in> set (js_split c s) \<Longrightarrow> c \<notin> set w"
  using split_acc_no_sep [of c "[]" w s] by (simp add: js_split_def)

lemma js_split_join: "join_with [c] (js_split c s) = s"
  by (simp add: js_split_def split_acc_join)

lemma js_split_no_sep_word:
  "c \<notin> set w \<Longrightarrow> js_split c w = [w]"
  by (induction w) (auto simp: js_simps)

lemma js_split_sep_word:
  "c \<notin> set w \<Longrightarrow> js_split c (w @ c # r) = w # js_split c r"
  by (induction w) (auto simp: js_simps)

lemma js_split_join_inverse:
  "ws \<noteq> [] \<Longrightarrow> (\<forall>w \<in> set ws. c \<notin> set w) \<Longrightarrow> js_split c (join_with [c] ws) = ws"
proof (induction ws)
  case (Cons w ws)
  then show ?case
    by (cases "ws = []") (auto simp: js_split_no_sep_word js_split_sep_word)
qed simp

subsection \<open>\<open>String.prototype.toUpperCase\<close>\<close>

text \<open>
  The Unicode default case mapping on the model's alphabet: the ASCII and Latin-1
  lowercase letters map to their capitals, and \<open>\<ss>\<close> (U+00DF) to the two
  letters \<open>SS\<close> (SpecialCasing.txt). The capitals of U+00B5 and U+00FF lie outside
  the alphabet (U+039C, U+0178); the model keeps those two characters as they are.
\<close>

definition upper_char :: "char \<Rightarrow> js_string" where
  "upper_char c =
     (let n = (of_char c :: nat) in
      if 97 \<le> n \<and> n \<le> 122 then [char_of (n - 32)]
      else if n = 223 then ''SS''
      else if 224 \<le> n \<and> n \<le> 254 \<and> n \<noteq> 247 then [char_of (n - 32)]
      else [c])"

definition js_toUpperCase :: "js_string \<Rightarrow> js_string" where
  "js_toUpperCase s = concat (map upper_char s)"

lemma js_toUpperCase_Nil [js_simps]: "js_toUpperCase [] = []"
  by (simp add: js_toUpperCase_def)

lemma js_toUpperCase_Cons [js_simps]:
  "js_toUpperCase (c # s) = upper_char c @ js_toUpperCase s"
  by (simp add: js_toUpperCase_def)

lemma js_toUpperCase_append [js_simps]:
  "js_toUpperCase (s @ t) = js_toUpperCase s @ js_toUpperCase t"
  by (simp add: js_toUpperCase_def)

lemma upper_char_nonempty [simp]: "upper_char c \<noteq> []"
  by (simp add: upper_char_def Let_def)

lemma js_toUpperCase_empty_iff [simp]: "js_toUpperCase s = [] \<longleftrightarrow> s = []"
  by (simp add: js_toUpperCase_def)

subsection \<open>Number to string\<close>

text \<open>
  \<open>Number::toString\<close> of a non-negative integer below \<open>10\<^sup>2\<^sup>1\<close>: its decimal
  digits, most significant first, without leading zeros.
\<close>

definition digit_char :: "nat \<Rightarrow> char" where
  "digit_char d = char_of (48 + d)"

fun dec_string :: "nat \<Rightarrow> js_string" where
  "dec_string n =
     (if n < 10 then [digit_char n] else dec_string (n div 10) @ [digit_char (n mod 10)])"

declare dec_string.simps [simp del]

text \<open>The value of a string of decimal digits (\<open>Number("...")\<close> on such a string).\<close>

definition dec_value :: "js_string \<Rightarrow> nat" where
  "dec_value s = foldl (\<lambda>acc c. 10 * acc + (of_char c - 48)) 0 s"

definition is_digit :: "char \<Rightarrow> bool" where
  "is_digit c \<longleftrightarrow> 48 \<le> (of_char c :: nat) \<and> (of_char c :: nat) \<le> 57"

lemma of_char_digit_char [simp]: "d < 10 \<Longrightarrow> (of_char (digit_char d) :: nat) = 48 + d"
  by (simp add: digit_char_def)

lemma is_digit_digit_char [simp]: "d < 10 \<Longrightarrow> is_digit (digit_char d)"
  by (simp add: is_digit_def)

lemma dec_value_snoc:
  "dec_value (s @ [c]) = 10 * dec_value s + (of_char c - 48)"
  by (simp add: dec_value_def)

lemma dec_string_nonempty [simp]: "dec_string n \<noteq> []"
  by (subst dec_string.simps) simp

theorem dec_value_dec_string: "dec_value (dec_string n) = n"
proof (induction n rule: dec_string.induct)
  case (1 n)
  show ?case
  proof (cases "n < 10")
    case True
    then show ?thesis
      by (subst dec_string.simps) (simp add: dec_value_def)
  next
    case False
    with "1.IH" have "dec_value (dec_string (n div 10)) = n div 10" by simp
    with False show ?thesis
      by (subst dec_string.simps) (simp add: dec_value_snoc)
  qed
qed

lemma dec_string_inj: "dec_string m = dec_string n \<Longrightarrow> m = n"
  by (metis dec_value_dec_string)

lemma dec_string_digits: "c \<in> set (dec_string n) \<Longrightarrow> is_digit c"
proof (induction n rule: dec_string.induct)
  case (1 n)
  then show ?case
    by (cases "n < 10") (auto simp: dec_string.simps [of n])
qed

lemma dec_string_length_le:
  "n < 10 ^ k \<Longrightarrow> 0 < k \<Longrightarrow> length (dec_string n) \<le> k"
proof (induction n arbitrary: k rule: dec_string.induct)
  case (1 n)
  show ?case
  proof (cases "n < 10")
    case True
    with "1.prems" show ?thesis by (simp add: dec_string.simps [of n])
  next
    case False
    from "1.prems"(1) False obtain j where k: "k = Suc j" and "0 < j"
      by (cases k; cases "k - 1") auto
    with "1.prems"(1) have "n div 10 < 10 ^ j" by (simp add: less_mult_imp_div_less)
    with "1.IH" False \<open>0 < j\<close> have "length (dec_string (n div 10)) \<le> j" by simp
    with False k show ?thesis by (simp add: dec_string.simps [of n])
  qed
qed

text \<open>Evaluation of \<open>dec_string\<close> on a numeral (not a simp rule: it unfolds forever on a
  variable).\<close>

lemmas dec_string_eval = dec_string.simps digit_char_def char_of_eq_iff

lemma takeWhile_digits_dec_string [simp]:
  "takeWhile is_digit (dec_string n @ s) = dec_string n @ takeWhile is_digit s"
  by (simp add: dec_string_digits)

lemma dropWhile_digits_dec_string [simp]:
  "dropWhile is_digit (dec_string n @ s) = dropWhile is_digit s"
  by (simp add: dec_string_digits)

subsection \<open>\<open>String.prototype.slice\<close>\<close>

text \<open>
  \<open>s.slice(start, end)\<close>: a negative index counts from the end, both are clamped to
  \<open>[0, length]\<close>, and an empty span gives the empty string.
\<close>

definition js_slice :: "js_string \<Rightarrow> int \<Rightarrow> int \<Rightarrow> js_string" where
  "js_slice s start end =
     (let len = int (length s);
          from = (if start < 0 then max (len + start) 0 else min start len);
          to = (if end < 0 then max (len + end) 0 else min end len)
      in take (nat (to - from)) (drop (nat from) s))"

lemma js_slice_drop_last [js_simps]:
  "js_slice s 0 (int (length s) - 1) = butlast s"
  by (cases s rule: rev_cases) (auto simp: js_slice_def Let_def)

end
