(* ===== verification/Promise.thy ===== *)
theory Promise
  imports Prelude
begin

text \<open>
  The JavaScript values that reach a promise or the page in \<open>Request.js\<close>, and the
  part of the Promise built-in the code uses: a promise's state, the resolving
  functions handed to an executor (only the first call has an effect), and the
  reactions registered by \<open>then\<close> and \<open>catch\<close>.
\<close>

text \<open>
  Exceptions the modelled code can meet: \<open>SyntaxError\<close> and \<open>SecurityError\<close>
  (DOMExceptions thrown by \<open>XMLHttpRequest.open\<close>), \<open>InvalidStateError\<close> (thrown
  by \<open>send\<close> out of order), \<open>TypeError\<close> (a property read on \<open>null\<close>), and the
  \<open>SyntaxError\<close> of \<open>JSON.parse\<close>, kept apart as \<open>JsonSyntaxError\<close>.
\<close>

datatype js_exc = SyntaxError | SecurityError | InvalidStateError | TypeError | JsonSyntaxError

datatype js_val = JStr js_string | JUndefined | JExc js_exc

datatype promise_state = Pending | Fulfilled js_val | Rejected js_val

text \<open>
  The \<open>resolve\<close> and \<open>reject\<close> functions of \<open>new Promise((res, rej) => ...)\<close> share
  an \<open>alreadyResolved\<close> flag: once the promise is settled, later calls do nothing.
  The values passed here are never thenables, so \<open>res(v)\<close> fulfils with \<open>v\<close>.
\<close>

definition resolve_p :: "js_val \<Rightarrow> promise_state \<Rightarrow> promise_state" where
  "resolve_p v p = (if p = Pending then Fulfilled v else p)"

definition reject_p :: "js_val \<Rightarrow> promise_state \<Rightarrow> promise_state" where
  "reject_p v p = (if p = Pending then Rejected v else p)"

lemma resolve_p_Pending [simp]: "resolve_p v Pending = Fulfilled v"
  and reject_p_Pending [simp]: "reject_p v Pending = Rejected v"
  by (simp_all add: resolve_p_def reject_p_def)

lemma settled_resolve_p [simp]: "p \<noteq> Pending \<Longrightarrow> resolve_p v p = p"
  and settled_reject_p [simp]: "p \<noteq> Pending \<Longrightarrow> reject_p v p = p"
  by (simp_all add: resolve_p_def reject_p_def)

text \<open>
  A reaction job of \<open>p.then(onFulfilled)\<close> (no \<open>onRejected\<close>) settles the derived
  promise from the settled \<open>p\<close>: the handler's result or exception on fulfilment,
  the same reason on rejection. \<open>p.catch(onRejected)\<close> is the mirror image.
  A handler is given as a function from its argument to \<open>js_exc + js_val\<close>
  (\<open>Inl\<close>: it threw).
\<close>

definition handler_result :: "js_exc + js_val \<Rightarrow> promise_state" where
  "handler_result r = (case r of Inl e \<Rightarrow> Rejected (JExc e) | Inr v \<Rightarrow> Fulfilled v)"

fun then_reaction :: "(js_val \<Rightarrow> js_exc + js_val) \<Rightarrow> promise_state \<Rightarrow> promise_state" where
  "then_reaction f (Fulfilled v) = handler_result (f v)"
| "then_reaction f (Rejected e) = Rejected e"
| "then_reaction f Pending = Pending"

fun catch_reaction :: "(js_val \<Rightarrow> js_exc + js_val) \<Rightarrow> promise_state \<Rightarrow> promise_state" where
  "catch_reaction g (Fulfilled v) = Fulfilled v"
| "catch_reaction g (Rejected e) = handler_result (g e)"
| "catch_reaction g Pending = Pending"

lemma handler_result_settled [simp]: "handler_result r \<noteq> Pending"
  by (simp add: handler_result_def split: sum.splits)

lemma then_reaction_settled: "p \<noteq> Pending \<Longrightarrow> then_reaction f p \<noteq> Pending"
  by (cases p) auto

lemma catch_reaction_settled: "p \<noteq> Pending \<Longrightarrow> catch_reaction g p \<noteq> Pending"
  by (cases p) auto

text \<open>The value a settled promise carries: its fulfilment value or its rejection reason.\<close>

fun outcome_value :: "promise_state \<Rightarrow> js_val" where
  "outcome_value (Fulfilled v) = v"
| "outcome_value (Rejected v) = v"
| "outcome_value Pending = JUndefined"

end
