(* ===== verification/Xhr.thy ===== *)
theory Xhr
  imports Js_String Promise
begin

text \<open>
  The transport: the part of the XMLHttpRequest Standard that \<open>request\<close> in
  \<open>Request.js\<close> relies on. An XHR object's state, \<open>open(method, url, async)\<close> with
  its checks on the method and the URL, \<open>send(body)\<close>, and the delivery of the
  response (a \<open>load\<close> event with a status and a body) or of a network error (an
  \<open>error\<close> event). Whether a URL string parses against the document's base URL is
  the one part of the browser the model leaves open: it is the field
  \<open>url_parses\<close> of a \<open>browser\<close>, and every theorem holds for every browser.
\<close>

record browser =
  url_parses :: "js_string \<Rightarrow> bool"

datatype ready_state = UNSENT | OPENED | DONE

text \<open>
  The handlers of \<open>request\<close> are fixed by the code, so an XHR records whether each
  is installed, not the closure itself. \<open>req_url\<close> is the \<open>url\<close> argument of
  \<open>open\<close> (\<open>None\<close> for \<open>undefined\<close>); \<open>req_body\<close> the body \<open>send\<close> transmits
  (\<open>None\<close> for \<open>null\<close>).
\<close>

record xhr =
  ready :: ready_state
  req_method :: js_string
  req_url :: "js_string option"
  req_async :: bool
  send_flag :: bool
  req_body :: "js_string option"
  onload_set :: bool
  onerror_set :: bool

definition new_xhr :: xhr where
  "new_xhr = \<lparr>ready = UNSENT, req_method = [], req_url = None, req_async = True,
     send_flag = False, req_body = None, onload_set = False, onerror_set = False\<rparr>"

subsection \<open>Methods\<close>

text \<open>A method is an HTTP token: a non-empty string of \<open>tchar\<close>s (RFC 9110).\<close>

definition tchar :: "char \<Rightarrow> bool" where
  "tchar c \<longleftrightarrow>
     (let n = (of_char c :: nat) in
      (48 \<le> n \<and> n \<le> 57) \<or> (65 \<le> n \<and> n \<le> 90) \<or> (97 \<le> n \<and> n \<le> 122) \<or>
      c \<in> set ''!#$%&'*+-.^_`|~'')"

definition is_method :: "js_string \<Rightarrow> bool" where
  "is_method m \<longleftrightarrow> m \<noteq> [] \<and> list_all tchar m"

text \<open>Byte-uppercase: the ASCII case folding of the standard's comparisons.\<close>

definition byte_upper :: "js_string \<Rightarrow> js_string" where
  "byte_upper m = map (\<lambda>c. let n = (of_char c :: nat) in
     if 97 \<le> n \<and> n \<le> 122 then char_of (n - 32) else c) m"

definition forbidden_method :: "js_string \<Rightarrow> bool" where
  "forbidden_method m \<longleftrightarrow> byte_upper m \<in> {''CONNECT'', ''TRACE'', ''TRACK''}"

definition normalize_method :: "js_string \<Rightarrow> js_string" where
  "normalize_method m =
     (if byte_upper m \<in> {''DELETE'', ''GET'', ''HEAD'', ''OPTIONS'', ''POST'', ''PUT''}
      then byte_upper m else m)"

text \<open>\<open>open\<close> converts its \<open>url\<close> argument to a string: \<open>undefined\<close> becomes
  \<open>"undefined"\<close>.\<close>

definition url_arg_string :: "js_string option \<Rightarrow> js_string" where
  "url_arg_string u = (case u of None \<Rightarrow> ''undefined'' | Some s \<Rightarrow> s)"

subsection \<open>open, send and the response events\<close>

definition xhr_open ::
  "browser \<Rightarrow> js_string \<Rightarrow> js_string option \<Rightarrow> bool \<Rightarrow> xhr \<Rightarrow> js_exc + xhr" where
  "xhr_open br m u async x =
     (if \<not> is_method m then Inl SyntaxError
      else if forbidden_method m then Inl SecurityError
      else if \<not> url_parses br (url_arg_string u) then Inl SyntaxError
      else Inr (x\<lparr>ready := OPENED, req_method := normalize_method m, req_url := u,
                  req_async := async, send_flag := False, req_body := None\<rparr>))"

text \<open>\<open>send\<close> ignores the body of a \<open>GET\<close> or \<open>HEAD\<close> request.\<close>

definition xhr_send :: "js_string option \<Rightarrow> xhr \<Rightarrow> js_exc + xhr" where
  "xhr_send body x =
     (if ready x \<noteq> OPENED \<or> send_flag x then Inl InvalidStateError
      else Inr (x\<lparr>send_flag := True,
                  req_body := (if req_method x \<in> {''GET'', ''HEAD''} then None else body)\<rparr>))"

text \<open>
  An asynchronous request's response arrives later, as a task of the event loop: the
  object is \<open>DONE\<close> and the \<open>load\<close> (or \<open>error\<close>) handler runs, when installed.
  Only an object that was sent and is not yet done receives one.
\<close>

definition awaiting_response :: "xhr \<Rightarrow> bool" where
  "awaiting_response x \<longleftrightarrow> send_flag x \<and> ready x = OPENED"

definition xhr_finish :: "xhr \<Rightarrow> xhr" where
  "xhr_finish x = x\<lparr>ready := DONE\<rparr>"

lemma xhr_finish_not_awaiting [simp]: "\<not> awaiting_response (xhr_finish x)"
  by (simp add: awaiting_response_def xhr_finish_def)

lemma xhr_finish_handlers [simp]:
  "onload_set (xhr_finish x) = onload_set x" "onerror_set (xhr_finish x) = onerror_set x"
  by (simp_all add: xhr_finish_def)

text \<open>Unfolding rules that evaluate \<open>open\<close> and \<open>send\<close> on concrete arguments.\<close>

lemmas xhr_eval = xhr_open_def xhr_send_def new_xhr_def is_method_def tchar_def
  forbidden_method_def byte_upper_def normalize_method_def url_arg_string_def Let_def
  char_of_eq_iff

end
