(* ===== verification/Request.thy ===== *)
theory Request
  imports Xhr
begin

text \<open>
  The closure \<open>request(method, url, data)\<close> of \<open>xhrApi\<close> in \<open>Request.js\<close>
  (lines 25--56): its argument normalisation, its synchronous rejection when the
  method is empty, the promise executor that opens and sends an XMLHttpRequest, and
  the \<open>onload\<close> and \<open>onerror\<close> handlers that settle the promise. A call returns the
  state of the promise it creates and, when the request went out, the XHR object that
  waits for its response.
\<close>

subsection \<open>Arguments\<close>

text \<open>
  Every call site passes a string or \<open>undefined\<close> for \<open>url\<close> and \<open>data\<close> (segments
  of \<open>input.split("*")\<close>) and a string for \<open>method\<close>; \<open>None\<close> is \<open>undefined\<close>.
  \<open>if (!data) data = null\<close>: \<open>undefined\<close> and the empty string are falsy, and
  \<open>null\<close> is \<open>None\<close>.
\<close>

definition request_data :: "js_string option \<Rightarrow> js_string option" where
  "request_data d = (case d of None \<Rightarrow> None | Some s \<Rightarrow> if s = [] then None else Some s)"

text \<open>\<open>if (url === "") url = undefined\<close>.\<close>

definition request_url :: "js_string option \<Rightarrow> js_string option" where
  "request_url u = (if u = Some [] then None else u)"

definition method_missing_msg :: js_string where
  "method_missing_msg = ''Please enter an http method''"

definition fetch_failed_msg :: js_string where
  "fetch_failed_msg = ''Failed during fetching data from Api (View console for details..)''"

subsection \<open>The executor\<close>

text \<open>
  The executor runs synchronously inside \<open>new Promise\<close>, in the source's order:
  create the object, \<open>open(method, url, true)\<close>, install \<open>onload\<close>,
  \<open>send(data)\<close>, install \<open>onerror\<close>. An exception thrown by \<open>open\<close> or
  \<open>send\<close> ends the executor and rejects the promise with it; the object then never
  receives a response, and the result carries none.
\<close>

definition request_executor ::
  "browser \<Rightarrow> js_string \<Rightarrow> js_string option \<Rightarrow> js_string option \<Rightarrow> promise_state \<times> xhr option" where
  "request_executor br m u d =
     (case xhr_open br m u True new_xhr of
        Inl e \<Rightarrow> (Rejected (JExc e), None)
      | Inr x \<Rightarrow>
          (case xhr_send d (x\<lparr>onload_set := True\<rparr>) of
             Inl e \<Rightarrow> (Rejected (JExc e), None)
           | Inr x' \<Rightarrow> (Pending, Some (x'\<lparr>onerror_set := True\<rparr>))))"

definition request ::
  "browser \<Rightarrow> js_string \<Rightarrow> js_string option \<Rightarrow> js_string option \<Rightarrow> promise_state \<times> xhr option" where
  "request br method url data =
     (let data' = request_data data in
      if method = [] then (Rejected (JStr method_missing_msg), None)
      else request_executor br method (request_url url) data')"

subsection \<open>The handlers\<close>

text \<open>
  \<open>status + " NOT FOUND"\<close> and \<open>status + response\<close>: the number is converted to its
  decimal string and concatenated.
\<close>

definition status_text :: "http_status \<Rightarrow> js_string" where
  "status_text st = dec_string (unat st)"

definition onload_handler :: "http_status \<Rightarrow> js_string \<Rightarrow> promise_state \<Rightarrow> promise_state" where
  "onload_handler st body p =
     (if 200 \<le> st \<and> st < 300 then resolve_p (JStr body) p
      else if 400 \<le> st then reject_p (JStr (status_text st @ '' NOT FOUND'')) p
      else resolve_p (JStr (status_text st @ body)) p)"

text \<open>\<open>console.log(e)\<close> writes to the console only; it is not modelled.\<close>

definition onerror_handler :: "promise_state \<Rightarrow> promise_state" where
  "onerror_handler p = reject_p (JStr fetch_failed_msg) p"

subsection \<open>Delivering the response\<close>

text \<open>
  The browser's \<open>load\<close> task (a status and a body) or \<open>error\<close> task for a request
  in flight: the object becomes \<open>DONE\<close> and the installed handler runs on the
  request's promise.
\<close>

definition deliver_load ::
  "http_status \<Rightarrow> js_string \<Rightarrow> xhr \<times> promise_state \<Rightarrow> xhr \<times> promise_state" where
  "deliver_load st body xp =
     (let (x, p) = xp in
      if awaiting_response x
      then (xhr_finish x, if onload_set x then onload_handler st body p else p)
      else (x, p))"

definition deliver_error :: "xhr \<times> promise_state \<Rightarrow> xhr \<times> promise_state" where
  "deliver_error xp =
     (let (x, p) = xp in
      if awaiting_response x
      then (xhr_finish x, if onerror_set x then onerror_handler p else p)
      else (x, p))"

subsection \<open>Facts used by the component's theorems\<close>

lemma word16_le_iff_unat: "(k::http_status) \<le> st \<longleftrightarrow> unat k \<le> unat st"
  and word16_less_iff_unat: "st < (k::http_status) \<longleftrightarrow> unat st < unat k"
  by (simp_all add: word_le_nat_alt word_less_nat_alt)

lemma unat_status_bound: "unat (st::http_status) < 65536"
  using unsigned_less [of st, where ?'a = nat] by simp

lemma request_data_falsy [simp]:
  "request_data None = None" "request_data (Some []) = None"
  "s \<noteq> [] \<Longrightarrow> request_data (Some s) = Some s"
  by (simp_all add: request_data_def)

lemma onload_handler_settled: "onload_handler st body Pending \<noteq> Pending"
  by (simp add: onload_handler_def)

lemma onerror_handler_settled: "onerror_handler Pending \<noteq> Pending"
  by (simp add: onerror_handler_def)

lemma handlers_keep_settled:
  "p \<noteq> Pending \<Longrightarrow> onload_handler st body p = p"
  "p \<noteq> Pending \<Longrightarrow> onerror_handler p = p"
  by (simp_all add: onload_handler_def onerror_handler_def)

lemma xhr_open_Inr:
  "xhr_open br m u a x = Inr x' \<Longrightarrow>
   ready x' = OPENED \<and> \<not> send_flag x' \<and> onload_set x' = onload_set x \<and> onerror_set x' = onerror_set x"
  by (auto simp: xhr_open_def split: if_splits)

lemma xhr_send_Inr:
  "xhr_send d x = Inr x' \<Longrightarrow>
   send_flag x' \<and> ready x' = ready x \<and> onload_set x' = onload_set x \<and> onerror_set x' = onerror_set x"
  by (auto simp: xhr_send_def split: if_splits)

lemma xhr_send_opened: "ready x = OPENED \<Longrightarrow> \<not> send_flag x \<Longrightarrow> \<exists>x'. xhr_send d x = Inr x'"
  by (simp add: xhr_send_def)

lemma request_executor_cases:
  assumes "request_executor br m u d = (p, xo)"
  shows "(xo = None \<and> p \<noteq> Pending) \<or>
    (\<exists>x. xo = Some x \<and> p = Pending \<and> awaiting_response x \<and> onload_set x \<and> onerror_set x)"
proof (cases "xhr_open br m u True new_xhr")
  case (Inl e)
  with assms show ?thesis by (auto simp: request_executor_def)
next
  case (Inr x)
  from xhr_open_Inr [OF Inr] obtain x' where
    x': "xhr_send d (x\<lparr>onload_set := True\<rparr>) = Inr x'"
    using xhr_send_opened [of "x\<lparr>onload_set := True\<rparr>" d] by auto
  from xhr_send_Inr [OF x'] xhr_open_Inr [OF Inr] assms Inr x' show ?thesis
    by (auto simp: request_executor_def awaiting_response_def)
qed

lemma request_result_cases:
  assumes "request br m u d = (p, xo)"
  shows "(xo = None \<and> p \<noteq> Pending) \<or>
    (\<exists>x. xo = Some x \<and> p = Pending \<and> awaiting_response x \<and> onload_set x \<and> onerror_set x)"
proof (cases "m = []")
  case True
  with assms show ?thesis by (auto simp: request_def)
next
  case False
  with assms have "request_executor br m (request_url u) (request_data d) = (p, xo)"
    by (simp add: request_def)
  then show ?thesis by (rule request_executor_cases)
qed

lemma deliver_load_awaiting:
  assumes "awaiting_response x" "onload_set x"
  shows "deliver_load st b (x, p) = (xhr_finish x, onload_handler st b p)"
  using assms by (simp add: deliver_load_def)

lemma deliver_error_awaiting:
  assumes "awaiting_response x" "onerror_set x"
  shows "deliver_error (x, p) = (xhr_finish x, onerror_handler p)"
  using assms by (simp add: deliver_error_def)

subsection \<open>The outcome of a response\<close>

text \<open>
  C1. The promise of a request whose response has arrived is rejected exactly when the
  response status is 400 or more; every other status fulfils it (\<open>Request.js\<close>
  lines 40--47).
\<close>

theorem onload_rejects_iff:
  "(\<exists>r. onload_handler st b Pending = Rejected r) \<longleftrightarrow> 400 \<le> unat st"
  by (auto simp: onload_handler_def word16_le_iff_unat word16_less_iff_unat)

text \<open>
  C2. A response with a status in \<open>[200, 300)\<close> fulfils the promise with the
  response body itself, unchanged.
\<close>

theorem onload_success:
  "200 \<le> unat st \<Longrightarrow> unat st < 300 \<Longrightarrow> onload_handler st b Pending = Fulfilled (JStr b)"
  by (simp add: onload_handler_def word16_le_iff_unat word16_less_iff_unat)

theorem onload_success_witness:
  "onload_handler 200 ''{ \"id\": 12 }'' Pending = Fulfilled (JStr ''{ \"id\": 12 }'')"
  using onload_success [of 200 "''{ \"id\": 12 }''"] by simp

text \<open>
  C3. A response with a status below 200 or in \<open>[300, 400)\<close> fulfils the promise
  with the decimal status followed by the body, not with an error.
\<close>

theorem onload_other:
  "unat st < 200 \<or> (300 \<le> unat st \<and> unat st < 400) \<Longrightarrow>
   onload_handler st b Pending = Fulfilled (JStr (dec_string (unat st) @ b))"
  by (auto simp: onload_handler_def word16_le_iff_unat word16_less_iff_unat status_text_def)

theorem onload_other_witness:
  "onload_handler 301 ''moved'' Pending = Fulfilled (JStr ''301moved'')"
proof -
  have "dec_string 301 = ''301''"
    by (simp add: dec_string_eval)
  then show ?thesis
    using onload_other [of 301 "''moved''"] by simp
qed

text \<open>
  C4. On a status of 400 or more the rejection reason is the decimal status followed
  by \<open>" NOT FOUND"\<close>: reading its leading digits back gives the status.
\<close>

theorem onload_reject_reason:
  assumes "400 \<le> unat st"
  shows "\<exists>r. onload_handler st b Pending = Rejected (JStr r) \<and>
    dec_value (takeWhile is_digit r) = unat st \<and> dropWhile is_digit r = '' NOT FOUND''"
proof -
  have nd: "takeWhile is_digit '' NOT FOUND'' = []" "dropWhile is_digit '' NOT FOUND'' = '' NOT FOUND''"
    by (simp_all add: is_digit_def)
  have sp: "\<not> is_digit CHR '' ''" by (simp add: is_digit_def)
  from assms show ?thesis
    by (auto simp: onload_handler_def word16_le_iff_unat word16_less_iff_unat status_text_def
        nd sp dec_value_dec_string)
qed

theorem onload_reject_reason_witness:
  "onload_handler 404 ''x'' Pending = Rejected (JStr ''404 NOT FOUND'')"
proof -
  have s: "dec_string 404 = ''404''"
    by (simp add: dec_string_eval)
  from onload_reject_reason [of 404 "''x''"] obtain r where
    "onload_handler 404 ''x'' Pending = Rejected (JStr r)" by auto
  moreover have "onload_handler 404 ''x'' Pending = Rejected (JStr (dec_string 404 @ '' NOT FOUND''))"
    by (simp add: onload_handler_def status_text_def)
  ultimately show ?thesis using s by simp
qed

subsection \<open>Issuing a request\<close>

lemmas request_eval = request_def request_executor_def request_url_def request_data_def xhr_eval

text \<open>
  C5. An empty method rejects the promise at once with
  \<open>"Please enter an http method"\<close>, and no request goes out (\<open>Request.js\<close>
  lines 30--31).
\<close>

theorem request_empty_method:
  "request br [] u d = (Rejected (JStr ''Please enter an http method''), None)"
  by (simp add: request_def method_missing_msg_def)

text \<open>
  C6. A valid, permitted method and a URL that parses make \<open>request\<close> return a
  pending promise and an XHR that was opened with the normalised method, the URL
  (the empty string replaced by \<open>undefined\<close>) and \<open>async = true\<close>, that was sent
  the data (\<open>null\<close> when the data is falsy, and always for \<open>GET\<close> and \<open>HEAD\<close>),
  that has both handlers installed and that awaits its response.
\<close>

theorem request_opens_and_sends:
  assumes "is_method m" and "\<not> forbidden_method m"
    and "url_parses br (url_arg_string (request_url u))"
  shows "\<exists>x. request br m u d = (Pending, Some x) \<and>
    req_method x = normalize_method m \<and> req_url x = request_url u \<and> req_async x \<and>
    req_body x = (if normalize_method m \<in> {''GET'', ''HEAD''} then None else request_data d) \<and>
    awaiting_response x \<and> onload_set x \<and> onerror_set x"
  using assms
  by (auto simp: request_def request_executor_def xhr_open_def xhr_send_def new_xhr_def
      awaiting_response_def is_method_def)

theorem request_opens_and_sends_witness:
  "\<exists>x. request \<lparr>url_parses = \<lambda>_. True\<rparr> ''post'' (Some ''abc'') (Some ''p'') = (Pending, Some x) \<and>
    req_method x = ''POST'' \<and> req_url x = Some ''abc'' \<and> req_async x \<and> req_body x = Some ''p'' \<and>
    awaiting_response x \<and> onload_set x \<and> onerror_set x"
proof -
  have h: "is_method ''post''" "\<not> forbidden_method ''post''"
    "url_parses \<lparr>url_parses = \<lambda>_. True\<rparr> (url_arg_string (request_url (Some ''abc'')))"
    by (simp_all add: xhr_eval)
  have n: "normalize_method ''post'' = ''POST''" by (simp add: xhr_eval)
  show ?thesis
    using request_opens_and_sends [OF h, of "Some ''p''"] n by (simp add: request_url_def)
qed

text \<open>
  C7. When \<open>open\<close> throws (a method that is not an HTTP token, a forbidden method
  such as \<open>TRACE\<close> or \<open>CONNECT\<close>, a URL that does not parse) the promise is
  rejected with that exception and no request goes out: a forbidden method gives a
  \<open>SecurityError\<close>, the other cases a \<open>SyntaxError\<close>.
\<close>

theorem request_open_throws:
  assumes "m \<noteq> []"
    and "\<not> is_method m \<or> forbidden_method m \<or> \<not> url_parses br (url_arg_string (request_url u))"
  shows "request br m u d =
    (Rejected (JExc (if is_method m \<and> forbidden_method m then SecurityError else SyntaxError)), None)"
  using assms
  by (auto simp: request_def request_executor_def xhr_open_def)

theorem request_open_throws_witness:
  "request \<lparr>url_parses = \<lambda>_. True\<rparr> ''TRACE'' (Some ''abc'') None = (Rejected (JExc SecurityError), None)"
proof -
  have h: "''TRACE'' \<noteq> []"
    "\<not> is_method ''TRACE'' \<or> forbidden_method ''TRACE'' \<or>
     \<not> url_parses \<lparr>url_parses = \<lambda>_. True\<rparr> (url_arg_string (request_url (Some ''abc'')))"
    "is_method ''TRACE'' \<and> forbidden_method ''TRACE''"
    by (simp_all add: xhr_eval)
  show ?thesis using request_open_throws [OF h(1,2), of None] h(3) by simp
qed

text \<open>
  C8. A request that went out is settled by its response: whichever of the \<open>load\<close>
  and \<open>error\<close> events the browser delivers, its handler is installed and the
  promise is no longer pending.
\<close>

theorem request_settles_on_response:
  assumes "request br m u d = (Pending, Some x)"
  shows "snd (deliver_load st b (x, Pending)) \<noteq> Pending \<and> snd (deliver_error (x, Pending)) \<noteq> Pending"
  using assms
  by (auto simp: request_def request_executor_def xhr_open_def xhr_send_def new_xhr_def
      awaiting_response_def deliver_load_def deliver_error_def onload_handler_settled
      onerror_handler_settled split: if_splits sum.splits)

theorem request_settles_on_response_witness:
  "\<exists>x. request \<lparr>url_parses = \<lambda>_. True\<rparr> ''GET'' (Some ''abc'') None = (Pending, Some x) \<and>
     snd (deliver_load 200 [] (x, Pending)) \<noteq> Pending \<and> snd (deliver_error (x, Pending)) \<noteq> Pending"
proof -
  have "\<exists>x. request \<lparr>url_parses = \<lambda>_. True\<rparr> ''GET'' (Some ''abc'') None = (Pending, Some x)"
    by (simp add: request_eval)
  then obtain x where x: "request \<lparr>url_parses = \<lambda>_. True\<rparr> ''GET'' (Some ''abc'') None = (Pending, Some x)" ..
  show ?thesis using x request_settles_on_response [OF x] by blast
qed

text \<open>
  C28. A missing or empty URL is sent to the relative URL \<open>"undefined"\<close>: \<open>request\<close>
  replaces \<open>""\<close> by \<open>undefined\<close>, and \<open>open\<close> converts \<open>undefined\<close> to the string
  \<open>"undefined"\<close>, which the browser resolves against the page's address. The request
  goes out (to that address) instead of being refused for lack of a URL.
\<close>

theorem empty_url_requests_undefined:
  assumes "u = None \<or> u = Some []" "is_method m" "\<not> forbidden_method m"
    "url_parses br ''undefined''"
  shows "\<exists>x. request br m u d = (Pending, Some x) \<and> awaiting_response x \<and>
    url_arg_string (req_url x) = ''undefined''"
  using assms
  by (auto simp: request_def request_executor_def request_url_def url_arg_string_def xhr_open_def
      xhr_send_def new_xhr_def awaiting_response_def is_method_def)

theorem empty_url_requests_undefined_witness:
  "\<exists>x. request \<lparr>url_parses = \<lambda>_. True\<rparr> ''POST'' (Some []) None = (Pending, Some x) \<and>
    awaiting_response x \<and> url_arg_string (req_url x) = ''undefined''"
proof -
  have "is_method ''POST''" "\<not> forbidden_method ''POST''" by (simp_all add: xhr_eval)
  then show ?thesis
    using empty_url_requests_undefined [of "Some []" "''POST''" "\<lparr>url_parses = \<lambda>_. True\<rparr>" None] by simp
qed

end
