(* ===== verification/Json.thy ===== *)
theory Json
  imports Js_String
begin

text \<open>
  The values \<open>JSON.parse\<close> produces, and the operations \<open>queryStringified\<close> applies
  to them: truthiness (\<open>queryObject || ""\<close>), \<open>Object.keys\<close>, the property read
  \<open>queryObject[query]\<close>, and the conversion \<open>ToString\<close> that
  \<open>encodeURIComponent\<close> applies to its argument. JSON numbers are modelled by their
  integer values below \<open>10\<^sup>2\<^sup>1\<close> in magnitude (where \<open>ToString\<close> prints plain
  decimal digits); an object is the list of its properties in creation order, with
  distinct keys, as \<open>JSON.parse\<close> creates them.
\<close>

datatype json =
    JNull
  | JBool bool
  | JNum int
  | JString js_string
  | JArray "json list"
  | JObject "(js_string \<times> json) list"

subsection \<open>Truthiness\<close>

fun js_truthy :: "json \<Rightarrow> bool" where
  "js_truthy JNull = False"
| "js_truthy (JBool b) = b"
| "js_truthy (JNum n) = (n \<noteq> 0)"
| "js_truthy (JString s) = (s \<noteq> [])"
| "js_truthy (JArray vs) = True"
| "js_truthy (JObject ps) = True"

subsection \<open>Property keys\<close>

text \<open>
  An array index is the canonical decimal string of an integer in \<open>[0, 2\<^sup>3\<^sup>2 - 1)\<close>.
  \<open>Object.keys\<close> of an ordinary object lists the array-index keys first, in
  ascending numeric order, then the other string keys in creation order
  (OrdinaryOwnPropertyKeys). A string's keys are its indices; a boolean's or a
  number's wrapper has none.
\<close>

definition is_array_index :: "js_string \<Rightarrow> bool" where
  "is_array_index k \<longleftrightarrow>
     k \<noteq> [] \<and> list_all is_digit k \<and> dec_string (dec_value k) = k \<and> dec_value k < 4294967295"

definition ordinary_keys :: "js_string list \<Rightarrow> js_string list" where
  "ordinary_keys ks =
     sort_key dec_value (filter is_array_index ks) @ filter (\<lambda>k. \<not> is_array_index k) ks"

definition index_keys :: "nat \<Rightarrow> js_string list" where
  "index_keys n = map dec_string [0..<n]"

fun own_keys :: "json \<Rightarrow> js_string list" where
  "own_keys (JString s) = index_keys (length s)"
| "own_keys (JArray vs) = index_keys (length vs)"
| "own_keys (JObject ps) = ordinary_keys (map fst ps)"
| "own_keys _ = []"

subsection \<open>Reading a property\<close>

text \<open>\<open>v[k]\<close>: \<open>None\<close> is \<open>undefined\<close>.\<close>

fun get_prop :: "json \<Rightarrow> js_string \<Rightarrow> json option" where
  "get_prop (JString s) k =
     (if is_array_index k \<and> dec_value k < length s then Some (JString [s ! dec_value k]) else None)"
| "get_prop (JArray vs) k =
     (if is_array_index k \<and> dec_value k < length vs then Some (vs ! dec_value k) else None)"
| "get_prop (JObject ps) k = map_of ps k"
| "get_prop _ k = None"

subsection \<open>ToString\<close>

definition int_string :: "int \<Rightarrow> js_string" where
  "int_string n = (if n < 0 then CHR ''-'' # dec_string (nat (- n)) else dec_string (nat n))"

text \<open>
  An array converts through \<open>join(",")\<close>, where \<open>null\<close> elements give the empty
  string; an object gives \<open>"[object Object]"\<close>.
\<close>

fun json_to_string :: "json \<Rightarrow> js_string" where
  "json_to_string JNull = ''null''"
| "json_to_string (JBool b) = (if b then ''true'' else ''false'')"
| "json_to_string (JNum n) = int_string n"
| "json_to_string (JString s) = s"
| "json_to_string (JArray vs) =
     join_with '','' (map (\<lambda>v. if v = JNull then [] else json_to_string v) vs)"
| "json_to_string (JObject ps) = ''[object Object]''"

text \<open>\<open>String(v[k])\<close> with \<open>undefined\<close> for a missing property.\<close>

definition prop_string :: "json \<Rightarrow> js_string \<Rightarrow> js_string" where
  "prop_string v k = (case get_prop v k of None \<Rightarrow> ''undefined'' | Some w \<Rightarrow> json_to_string w)"

subsection \<open>Facts\<close>

lemma is_array_index_dec_string:
  "n < 4294967295 \<Longrightarrow> is_array_index (dec_string n)"
  by (simp add: is_array_index_def dec_value_dec_string list_all_iff dec_string_digits)

lemma dec_value_index_key: "dec_value (dec_string n) = n"
  by (rule dec_value_dec_string)

lemma set_ordinary_keys [simp]: "set (ordinary_keys ks) = set ks"
  by (auto simp: ordinary_keys_def)

lemma length_ordinary_keys [simp]: "length (ordinary_keys ks) = length ks"
  by (simp add: ordinary_keys_def sum_length_filter_compl)

end
