(* ===== verification/Uri.thy ===== *)
theory Uri
  imports Js_String
begin

unbundle bit_operations_syntax

text \<open>
  \<open>encodeURIComponent\<close> (ECMAScript, Encode with the unreserved set of
  \<open>encodeURIComponent\<close>) on the model's alphabet: a character of
  \<open>A-Z a-z 0-9 - _ . ! ~ * ' ( )\<close> is kept; any other is written as the UTF-8
  octets of its code point, each as \<open>%\<close> and two uppercase hexadecimal digits.
  A code point below \<open>0x80\<close> is one octet; one in \<open>[0x80, 0xFF]\<close> is the two
  octets \<open>0xC0 OR (c >> 6)\<close> and \<open>0x80 OR (c AND 0x3F)\<close>. Octets are 8-bit words.
  A decoder on the same alphabet gives the round trip.
\<close>

type_synonym octet = "8 word"

definition uri_unreserved :: "char \<Rightarrow> bool" where
  "uri_unreserved c \<longleftrightarrow>
     (let n = (of_char c :: nat) in
      (48 \<le> n \<and> n \<le> 57) \<or> (65 \<le> n \<and> n \<le> 90) \<or> (97 \<le> n \<and> n \<le> 122) \<or>
      c \<in> set ''-_.!~*'()'')"

definition hex_digit :: "octet \<Rightarrow> char" where
  "hex_digit d = (if d < 10 then char_of (48 + unat d) else char_of (55 + unat d))"

definition percent_octet :: "octet \<Rightarrow> js_string" where
  "percent_octet b = [CHR ''%'', hex_digit (drop_bit 4 b), hex_digit (b AND 0xF)]"

definition utf8_octets :: "char \<Rightarrow> octet list" where
  "utf8_octets c =
     (let b = (of_char c :: octet) in
      if b < 0x80 then [b] else [0xC0 OR drop_bit 6 b, 0x80 OR (b AND 0x3F)])"

definition encode_char :: "char \<Rightarrow> js_string" where
  "encode_char c =
     (if uri_unreserved c then [c] else concat (map percent_octet (utf8_octets c)))"

definition encodeURIComponent :: "js_string \<Rightarrow> js_string" where
  "encodeURIComponent s = concat (map encode_char s)"

lemma encodeURIComponent_Nil [simp]: "encodeURIComponent [] = []"
  and encodeURIComponent_Cons [simp]:
    "encodeURIComponent (c # s) = encode_char c @ encodeURIComponent s"
  and encodeURIComponent_append [simp]:
    "encodeURIComponent (s @ t) = encodeURIComponent s @ encodeURIComponent t"
  by (simp_all add: encodeURIComponent_def)

subsection \<open>Octet facts\<close>

lemma below8_cases: "(n::nat) < 8 \<Longrightarrow> n = 0 \<or> n = 1 \<or> n = 2 \<or> n = 3 \<or> n = 4 \<or> n = 5 \<or> n = 6 \<or> n = 7"
  by auto

lemma octet_eqI: "(\<And>n. n < 8 \<Longrightarrow> bit (a::octet) n = bit b n) \<Longrightarrow> a = b"
  by (rule bit_eqI) (simp add: possible_bit_def)

lemma unat_octet_less: "unat (b::octet) < 256"
  using unsigned_less [of b, where ?'a = nat] by simp

lemma octet_split_hex: "push_bit 4 (drop_bit 4 b) OR (b AND 0xF) = (b :: octet)"
  by (rule octet_eqI) (auto dest!: below8_cases simp: bit_simps)

lemma utf8_cont_tag: "(0x80 OR ((b::octet) AND 0x3F)) AND 0xC0 = 0x80"
  by (rule octet_eqI) (auto dest!: below8_cases simp: bit_simps)

lemma utf8_reassemble:
  "push_bit 6 ((0xC0 OR drop_bit 6 b) AND 0x1F) OR ((0x80 OR ((b::octet) AND 0x3F)) AND 0x3F) = b"
  by (rule octet_eqI) (auto dest!: below8_cases simp: bit_simps)

lemma utf8_lead:
  assumes "0x80 \<le> (b::octet)"
  shows "(0xC0 OR drop_bit 6 b) = 0xC2 \<or> (0xC0 OR drop_bit 6 b) = 0xC3"
proof -
  from assms have "128 \<le> unat b" by (simp add: word_le_nat_alt)
  then have "2 \<le> unat b div 64" "unat b div 64 < 4"
    using div_le_mono [of 128 "unat b" 64] less_mult_imp_div_less [of "unat b" 4 64]
      unat_octet_less [of b] by simp_all
  then have "unat b div 64 = 2 \<or> unat b div 64 = 3"
    by linarith
  then have "unat (drop_bit 6 b) = 2 \<or> unat (drop_bit 6 b) = 3"
    by (simp add: unat_drop_bit_eq drop_bit_eq_div unat_div)
  then have "drop_bit 6 b = 2 \<or> drop_bit 6 b = 3"
    by (simp add: word_unat_eq_iff)
  then show ?thesis by auto
qed

lemma hex_nibbles_less: "drop_bit 4 (b::octet) < 16" "b AND 0xF < 16"
proof -
  have "unat (drop_bit 4 b) = unat b div 16"
    by (simp add: unat_drop_bit_eq drop_bit_eq_div unat_div)
  then show "drop_bit 4 (b::octet) < 16"
    using unat_octet_less [of b] by (simp add: word_less_nat_alt less_mult_imp_div_less)
  have "(0xF :: octet) = mask 4" by (simp add: mask_eq_exp_minus_1)
  then show "b AND 0xF < 16"
    using and_mask_less_size [of 4 b] by (simp add: word_size)
qed

subsection \<open>Decoding\<close>

text \<open>
  \<open>decodeURIComponent\<close> on the model's alphabet: \<open>%XY\<close> with two hexadecimal
  digits is an octet; an octet below \<open>0x80\<close> is a character, \<open>0xC2\<close> or
  \<open>0xC3\<close> followed by a continuation octet \<open>10xxxxxx\<close> is one of U+0080 to
  U+00FF; anything else is an error (\<open>None\<close>). Code points above U+00FF, which the
  standard decodes, lie outside the alphabet.
\<close>

definition hex_value :: "char \<Rightarrow> octet option" where
  "hex_value c =
     (let n = (of_char c :: nat) in
      if 48 \<le> n \<and> n \<le> 57 then Some (of_nat (n - 48))
      else if 65 \<le> n \<and> n \<le> 70 then Some (of_nat (n - 55))
      else if 97 \<le> n \<and> n \<le> 102 then Some (of_nat (n - 87))
      else None)"

fun pct_octet :: "js_string \<Rightarrow> (octet \<times> js_string) option" where
  "pct_octet (c # h1 # h2 # r) =
     (if c = CHR ''%'' then
        (case (hex_value h1, hex_value h2) of
           (Some a, Some b) \<Rightarrow> Some (push_bit 4 a OR b, r)
         | _ \<Rightarrow> None)
      else None)"
| "pct_octet _ = None"

lemma pct_octet_shorter: "pct_octet s = Some (b, r) \<Longrightarrow> length r < length s"
  by (induction s rule: pct_octet.induct) (auto split: if_splits option.splits)

function uri_decode :: "js_string \<Rightarrow> js_string option" where
  "uri_decode [] = Some []"
| "uri_decode (c # s) =
     (if c \<noteq> CHR ''%'' then map_option (Cons c) (uri_decode s)
      else case pct_octet (c # s) of
        None \<Rightarrow> None
      | Some (o1, r) \<Rightarrow>
          if o1 < 0x80 then map_option (Cons (char_of (unat o1))) (uri_decode r)
          else if o1 = 0xC2 \<or> o1 = 0xC3 then
            (case pct_octet r of
               None \<Rightarrow> None
             | Some (o2, r2) \<Rightarrow>
                 if o2 AND 0xC0 = 0x80
                 then map_option (Cons (char_of (unat (push_bit 6 (o1 AND 0x1F) OR (o2 AND 0x3F)))))
                        (uri_decode r2)
                 else None)
          else None)"
  by pat_completeness auto
termination
  by (relation "measure length") (force dest: pct_octet_shorter)+

subsection \<open>Round trip\<close>

lemma hex_value_hex_digit:
  assumes "d < 16"
  shows "hex_value (hex_digit d) = Some d"
proof -
  have u: "unat d < 16" using assms by (simp add: word_less_nat_alt)
  show ?thesis
  proof (cases "d < 10")
    case True
    then have "unat d < 10" by (simp add: word_less_nat_alt)
    with True show ?thesis by (simp add: hex_digit_def hex_value_def Let_def)
  next
    case False
    then have "10 \<le> unat d" by (simp add: word_less_nat_alt)
    with False u show ?thesis by (simp add: hex_digit_def hex_value_def Let_def)
  qed
qed

lemma pct_octet_percent_octet: "pct_octet (percent_octet b @ r) = Some (b, r)"
  by (simp add: percent_octet_def hex_nibbles_less hex_value_hex_digit octet_split_hex)

lemma unreserved_not_percent: "uri_unreserved c \<Longrightarrow> c \<noteq> CHR ''%''"
  by (auto simp: uri_unreserved_def)

lemma unat_of_char_octet: "unat (of_char c :: octet) = of_char c"
proof -
  have "(of_char c :: octet) = of_nat (of_char c)" by (simp add: of_nat_of_char)
  then show ?thesis by (simp add: unat_of_nat)
qed

lemma uri_decode_percent:
  "uri_decode (percent_octet b @ r) =
     (if b < 0x80 then map_option (Cons (char_of (unat b))) (uri_decode r)
      else if b = 0xC2 \<or> b = 0xC3 then
        (case pct_octet r of
           None \<Rightarrow> None
         | Some (o2, r2) \<Rightarrow>
             if o2 AND 0xC0 = 0x80
             then map_option (Cons (char_of (unat (push_bit 6 (b AND 0x1F) OR (o2 AND 0x3F)))))
                    (uri_decode r2)
             else None)
      else None)"
proof -
  have s: "percent_octet b @ r = CHR ''%'' # (tl (percent_octet b) @ r)"
    by (simp add: percent_octet_def)
  have p: "pct_octet (CHR ''%'' # (tl (percent_octet b) @ r)) = Some (b, r)"
    using pct_octet_percent_octet [of b r] s by simp
  show ?thesis
    by (subst s, subst uri_decode.simps(2)) (simp add: p)
qed

lemma uri_decode_encode_char:
  "uri_decode (encode_char c @ r) = map_option (Cons c) (uri_decode r)"
proof (cases "uri_unreserved c")
  case True
  then show ?thesis by (simp add: encode_char_def unreserved_not_percent)
next
  case False
  let ?b = "of_char c :: octet"
  show ?thesis
  proof (cases "?b < 0x80")
    case True
    with False show ?thesis
      by (simp add: encode_char_def utf8_octets_def uri_decode_percent unat_of_char_octet)
  next
    case hi: False
    then have lead: "\<not> (0xC0 OR drop_bit 6 ?b) < 0x80"
      "(0xC0 OR drop_bit 6 ?b) = 0xC2 \<or> (0xC0 OR drop_bit 6 ?b) = 0xC3"
      using utf8_lead [of ?b] by (auto simp: not_less)
    obtain o1 o2 where o1: "o1 = 0xC0 OR drop_bit 6 ?b" and o2: "o2 = 0x80 OR (?b AND 0x3F)"
      by blast
    have enc: "encode_char c = percent_octet o1 @ percent_octet o2"
      using False hi by (simp add: encode_char_def utf8_octets_def Let_def o1 o2)
    have l1: "\<not> o1 < 0x80" "o1 = 0xC2 \<or> o1 = 0xC3"
      unfolding o1 by (rule lead(1), rule lead(2))
    have t2: "o2 AND 0xC0 = 0x80"
      unfolding o2 by (rule utf8_cont_tag)
    have re: "char_of (unat (push_bit 6 (o1 AND 0x1F) OR (o2 AND 0x3F))) = c"
      unfolding o1 o2 utf8_reassemble by (simp add: unat_of_char_octet)
    show ?thesis
      using re by (simp add: enc uri_decode_percent pct_octet_percent_octet l1 t2)
  qed
qed

lemma uri_decode_encode [simp]: "uri_decode (encodeURIComponent s) = Some s"
  by (induction s) (simp_all add: uri_decode_encode_char [of _ "encodeURIComponent _", simplified])

subsection \<open>The alphabet of an encoded string\<close>

lemma hex_digit_unreserved: "d < 16 \<Longrightarrow> uri_unreserved (hex_digit d)"
proof -
  assume "d < 16"
  then have u: "unat d < 16" by (simp add: word_less_nat_alt)
  show ?thesis
  proof (cases "d < 10")
    case True
    then have "unat d < 10" by (simp add: word_less_nat_alt)
    with True show ?thesis by (simp add: hex_digit_def uri_unreserved_def Let_def)
  next
    case False
    then have "10 \<le> unat d" by (simp add: word_less_nat_alt)
    with False u show ?thesis by (simp add: hex_digit_def uri_unreserved_def Let_def)
  qed
qed

lemma percent_octet_safe: "c \<in> set (percent_octet b) \<Longrightarrow> uri_unreserved c \<or> c = CHR ''%''"
  by (auto simp: percent_octet_def hex_nibbles_less hex_digit_unreserved)

lemma encodeURIComponent_safe:
  "c \<in> set (encodeURIComponent s) \<Longrightarrow> uri_unreserved c \<or> c = CHR ''%''"
  by (auto simp: encodeURIComponent_def encode_char_def dest: percent_octet_safe split: if_splits)

lemma encodeURIComponent_no_delims:
  "CHR ''&'' \<notin> set (encodeURIComponent s)" "CHR ''='' \<notin> set (encodeURIComponent s)"
  "CHR ''?'' \<notin> set (encodeURIComponent s)"
  using encodeURIComponent_safe [of "CHR ''&''" s] encodeURIComponent_safe [of "CHR ''='' " s]
    encodeURIComponent_safe [of "CHR ''?''" s]
  by (auto simp: uri_unreserved_def)

lemma encode_char_length:
  "length (encode_char c) =
     (if uri_unreserved c then 1 else if (of_char c :: nat) < 128 then 3 else 6)"
proof -
  have "((of_char c :: octet) < 0x80) = ((of_char c :: nat) < 128)"
    by (simp add: word_less_nat_alt unat_of_char_octet)
  then show ?thesis
    by (simp add: encode_char_def utf8_octets_def Let_def percent_octet_def)
qed

subsection \<open>Validity and size of the encoding\<close>

text \<open>
  The octets of a character form valid UTF-8: a code point below \<open>0x80\<close> is its own
  single octet; a code point in \<open>[0x80, 0xFF]\<close> is a lead octet \<open>0xC2\<close> or \<open>0xC3\<close>
  followed by a continuation octet of the form \<open>10xxxxxx\<close>.
\<close>

lemma utf8_octets_valid:
  "((of_char c :: nat) < 128 \<and> utf8_octets c = [of_char c]) \<or>
   (128 \<le> (of_char c :: nat) \<and> (\<exists>b1 b2. utf8_octets c = [b1, b2] \<and>
      (b1 = 0xC2 \<or> b1 = 0xC3) \<and> b2 AND 0xC0 = 0x80))"
proof -
  have lt: "((of_char c :: octet) < 0x80) = ((of_char c :: nat) < 128)"
    by (simp add: word_less_nat_alt unat_of_char_octet)
  show ?thesis
  proof (cases "(of_char c :: nat) < 128")
    case True
    with lt show ?thesis by (simp add: utf8_octets_def)
  next
    case False
    with lt have "0x80 \<le> (of_char c :: octet)" by (simp add: not_less)
    from utf8_lead [OF this] False lt show ?thesis
      by (auto simp: utf8_octets_def utf8_cont_tag)
  qed
qed

text \<open>\<open>encodeURIComponent\<close> never shortens a string and at most multiplies its length by
  six (two escaped octets for a character of \<open>[U+0080, U+00FF]\<close>).\<close>

lemma encodeURIComponent_length:
  "length s \<le> length (encodeURIComponent s) \<and> length (encodeURIComponent s) \<le> 6 * length s"
  by (induction s) (auto simp: encode_char_length)

end
