(* ===== verification/Query.thy ===== *)
theory Query
  imports Json Uri
begin

text \<open>
  \<open>queryStringified(url, queryObject)\<close> of \<open>Request.js\<close> (lines 58--64), used by
  the \<open>query\<close> command: the \<open>forEach\<close> loop over \<open>Object.keys(queries)\<close> that
  appends \<open>key=value&\<close> for each key (both percent-encoded) to \<open>"?"\<close>, the
  \<open>slice\<close> that drops the last character, and the concatenation to the URL. It is
  shown equal to the specification's description: no \<open>?\<close> without pairs, otherwise
  \<open>url?k1=v1&...&kn=vn\<close>.
\<close>

subsection \<open>The code\<close>

definition query_pair :: "json \<Rightarrow> js_string \<Rightarrow> js_string" where
  "query_pair obj k =
     encodeURIComponent k @ ''='' @ encodeURIComponent (prop_string obj k) @ ''&''"

text \<open>\<open>Object.keys(queries).forEach(query => (queryString += ...))\<close>.\<close>

fun qs_loop :: "json \<Rightarrow> js_string \<Rightarrow> js_string list \<Rightarrow> js_string" where
  "qs_loop obj acc [] = acc"
| "qs_loop obj acc (k # ks) = qs_loop obj (acc @ query_pair obj k) ks"

definition queryStringified :: "js_string \<Rightarrow> json \<Rightarrow> js_string" where
  "queryStringified url queryObject =
     (let queries = (if js_truthy queryObject then queryObject else JString []);
          queryString = qs_loop queryObject ''?'' (own_keys queries);
          queryString' = js_slice queryString 0 (int (length queryString) - 1)
      in url @ queryString')"

subsection \<open>The specification\<close>

text \<open>The pairs the query string lists: the keys of the object (none when it is falsy)
  with the string forms of their values.\<close>

definition query_keys :: "json \<Rightarrow> js_string list" where
  "query_keys v = (if js_truthy v then own_keys v else [])"

definition query_pairs :: "json \<Rightarrow> (js_string \<times> js_string) list" where
  "query_pairs v = map (\<lambda>k. (k, prop_string v k)) (query_keys v)"

definition encode_pair :: "js_string \<times> js_string \<Rightarrow> js_string" where
  "encode_pair kv = encodeURIComponent (fst kv) @ ''='' @ encodeURIComponent (snd kv)"

definition query_string_spec :: "js_string \<Rightarrow> (js_string \<times> js_string) list \<Rightarrow> js_string" where
  "query_string_spec url ps =
     (if ps = [] then url else url @ ''?'' @ join_with ''&'' (map encode_pair ps))"

subsection \<open>Lemmas\<close>

lemma qs_loop_concat: "qs_loop obj acc ks = acc @ concat (map (query_pair obj) ks)"
  by (induction ks arbitrary: acc) auto

lemma butlast_concat_terminated:
  "ks \<noteq> [] \<Longrightarrow> butlast (concat (map (\<lambda>k. f k @ [t]) ks)) = join_with [t] (map f ks)"
proof (induction ks)
  case (Cons k ks)
  then show ?case by (cases "ks = []") (auto simp: butlast_append)
qed simp

lemma query_pair_terminated: "query_pair obj = (\<lambda>k. encode_pair (k, prop_string obj k) @ ''&'')"
  by (simp add: query_pair_def encode_pair_def fun_eq_iff)

lemma own_keys_falsy: "\<not> js_truthy v \<Longrightarrow> own_keys (JString []) = []"
  by (simp add: index_keys_def)

lemma queryStringified_eq_spec:
  "queryStringified url obj = query_string_spec url (query_pairs obj)"
proof (cases "query_keys obj = []")
  case True
  then show ?thesis
    by (auto simp: queryStringified_def query_string_spec_def query_pairs_def query_keys_def
        qs_loop_concat js_slice_drop_last index_keys_def split: if_splits)
next
  case False
  have "butlast (''?'' @ concat (map (query_pair obj) (query_keys obj))) =
        ''?'' @ join_with ''&'' (map encode_pair (query_pairs obj))"
    using False butlast_concat_terminated [of "query_keys obj" "\<lambda>k. encode_pair (k, prop_string obj k)" "CHR ''&''"]
    by (simp add: query_pair_terminated query_pairs_def comp_def butlast_append)
  with False show ?thesis
    by (auto simp: queryStringified_def query_string_spec_def query_pairs_def query_keys_def
        qs_loop_concat js_slice_drop_last index_keys_def split: if_splits)
qed

lemma encode_pair_no_amp: "CHR ''&'' \<notin> set (encode_pair kv)"
  by (simp add: encode_pair_def encodeURIComponent_no_delims)

lemma encode_pair_no_qmark: "CHR ''?'' \<notin> set (encode_pair kv)"
  by (simp add: encode_pair_def encodeURIComponent_no_delims)

lemma queryStringified_length_exact:
  "length (queryStringified url obj) =
     length url + sum_list (map (\<lambda>(k, v). length (encodeURIComponent k) + length (encodeURIComponent v) + 2)
                               (query_pairs obj))"
proof (cases "query_pairs obj = []")
  case True
  then show ?thesis by (simp add: queryStringified_eq_spec query_string_spec_def)
next
  case False
  have "length (join_with ''&'' (map encode_pair (query_pairs obj))) + 1 =
      sum_list (map (\<lambda>w. length w + 1) (map encode_pair (query_pairs obj)))"
    using length_join_with [of "map encode_pair (query_pairs obj)" "''&''"] False by simp
  also have "\<dots> = sum_list (map (\<lambda>(k, v). length (encodeURIComponent k) + length (encodeURIComponent v) + 2)
      (query_pairs obj))"
    by (simp add: comp_def encode_pair_def split_def)
  finally show ?thesis using False by (simp add: queryStringified_eq_spec query_string_spec_def)
qed

subsection \<open>Reading a query string back\<close>

text \<open>
  What a server does with the URL: split at \<open>?\<close>, split the query at \<open>&\<close>, each
  pair at \<open>=\<close>, and percent-decode both sides.
\<close>

definition parse_pair :: "js_string \<Rightarrow> (js_string \<times> js_string) option" where
  "parse_pair p =
     (case js_split CHR ''='' p of
        [k, v] \<Rightarrow> (case (uri_decode k, uri_decode v) of
                    (Some k', Some v') \<Rightarrow> Some (k', v')
                  | _ \<Rightarrow> None)
      | _ \<Rightarrow> None)"

definition parse_query :: "js_string \<Rightarrow> (js_string \<times> (js_string \<times> js_string) list) option" where
  "parse_query s =
     (case js_split CHR ''?'' s of
        [u] \<Rightarrow> Some (u, [])
      | [u, q] \<Rightarrow> map_option (\<lambda>ps. (u, ps)) (those (map parse_pair (js_split CHR ''&'' q)))
      | _ \<Rightarrow> None)"

lemma parse_pair_encode_pair: "parse_pair (encode_pair kv) = Some kv"
proof -
  have "js_split CHR ''='' (encode_pair kv) = [encodeURIComponent (fst kv), encodeURIComponent (snd kv)]"
    using js_split_sep_word [of "CHR ''=''" "encodeURIComponent (fst kv)" "encodeURIComponent (snd kv)"]
      js_split_no_sep_word [of "CHR ''=''" "encodeURIComponent (snd kv)"]
    by (simp add: encode_pair_def encodeURIComponent_no_delims)
  then show ?thesis by (simp add: parse_pair_def)
qed

lemma those_map_Some: "those (map (\<lambda>x. Some (f x)) xs) = Some (map f xs)"
  by (induction xs) auto

lemmas query_eval = queryStringified_eq_spec query_string_spec_def query_pairs_def query_keys_def
  ordinary_keys_def is_array_index_def is_digit_def prop_string_def encode_pair_def
  encode_char_def uri_unreserved_def percent_octet_def utf8_octets_def hex_digit_def
  char_of_eq_iff Let_def

subsection \<open>Properties\<close>

text \<open>
  C9. \<open>queryStringified\<close> meets the specification: with no pair it returns the URL
  unchanged; otherwise the URL, \<open>?\<close>, and the percent-encoded \<open>key=value\<close> pairs
  joined by \<open>&\<close>, with no trailing separator. The pairs are the keys of the parsed
  object (none when it is falsy) with the string forms of their values.
\<close>

theorem queryStringified_spec:
  "queryStringified url obj = query_string_spec url (query_pairs obj)"
  by (rule queryStringified_eq_spec)

text \<open>
  C10. The query string can be read back: splitting at \<open>?\<close>, \<open>&\<close> and \<open>=\<close> and
  decoding gives the URL and exactly the key/value pairs, in order, when the URL itself
  has no \<open>?\<close>. Encoding keeps keys and values apart whatever characters they hold.
\<close>

theorem query_string_roundtrip:
  assumes "CHR ''?'' \<notin> set url"
  shows "parse_query (queryStringified url obj) = Some (url, query_pairs obj)"
proof (cases "query_pairs obj = []")
  case True
  then have "queryStringified url obj = url"
    by (simp add: queryStringified_eq_spec query_string_spec_def)
  with True assms show ?thesis
    by (simp add: parse_query_def js_split_no_sep_word)
next
  case False
  let ?q = "join_with ''&'' (map encode_pair (query_pairs obj))"
  have q: "CHR ''?'' \<notin> set ?q"
    using set_join_with [of "''&''" "map encode_pair (query_pairs obj)"]
    by (auto simp: encode_pair_no_qmark)
  have amp: "js_split CHR ''&'' ?q = map encode_pair (query_pairs obj)"
    using False by (simp add: js_split_join_inverse encode_pair_no_amp)
  have "queryStringified url obj = url @ CHR ''?'' # ?q"
    using False by (simp add: queryStringified_eq_spec query_string_spec_def)
  with assms q amp show ?thesis
    by (simp add: parse_query_def js_split_sep_word js_split_no_sep_word comp_def
        parse_pair_encode_pair those_map_Some)
qed

theorem query_string_roundtrip_witness:
  "parse_query (queryStringified ''abc'' (JObject [(''a&b'', JString ''x=y'')])) =
     Some (''abc'', [(''a&b'', ''x=y'')])"
proof -
  have "query_pairs (JObject [(''a&b'', JString ''x=y'')]) = [(''a&b'', ''x=y'')]"
    by (simp add: query_eval)
  moreover have "CHR ''?'' \<notin> set ''abc''" by simp
  ultimately show ?thesis
    using query_string_roundtrip [of "''abc''" "JObject [(''a&b'', JString ''x=y'')]"] by simp
qed

text \<open>
  C25. Size of the built URL: each pair \<open>(k, v)\<close> adds between \<open>|k| + |v| + 2\<close> and
  \<open>6 (|k| + |v|) + 2\<close> characters to the URL (its \<open>=\<close>, and its \<open>?\<close> or \<open>&\<close>), with
  nothing added when there are no pairs.
\<close>

theorem queryStringified_length:
  "length url + sum_list (map (\<lambda>(k, v). length k + length v + 2) (query_pairs obj))
     \<le> length (queryStringified url obj) \<and>
   length (queryStringified url obj)
     \<le> length url + sum_list (map (\<lambda>(k, v). 6 * (length k + length v) + 2) (query_pairs obj))"
proof -
  have lo: "\<And>kv. (case kv of (k, v) \<Rightarrow> length k + length v + 2) \<le>
      (case kv of (k, v) \<Rightarrow> length (encodeURIComponent k) + length (encodeURIComponent v) + 2)"
    using encodeURIComponent_length by (auto simp: add_mono)
  have hi: "\<And>kv. (case kv of (k, v) \<Rightarrow> length (encodeURIComponent k) + length (encodeURIComponent v) + 2) \<le>
      (case kv of (k, v) \<Rightarrow> 6 * (length k + length v) + 2)"
    using encodeURIComponent_length by (auto simp: add_mono)
  have "sum_list (map (\<lambda>(k, v). length k + length v + 2) (query_pairs obj)) \<le>
      sum_list (map (\<lambda>(k, v). length (encodeURIComponent k) + length (encodeURIComponent v) + 2) (query_pairs obj))"
    by (rule sum_list_mono) (rule lo)
  moreover have "sum_list (map (\<lambda>(k, v). length (encodeURIComponent k) + length (encodeURIComponent v) + 2) (query_pairs obj)) \<le>
      sum_list (map (\<lambda>(k, v). 6 * (length k + length v) + 2) (query_pairs obj))"
    by (rule sum_list_mono) (rule hi)
  ultimately show ?thesis
    unfolding queryStringified_length_exact by simp
qed

lemma query_pairs_JString:
  assumes "length s < 4294967295"
  shows "query_pairs (JString s) = map (\<lambda>i. (dec_string i, [s ! i])) [0..<length s]"
proof -
  have "prop_string (JString s) (dec_string i) = [s ! i]" if "i < length s" for i
    using that assms is_array_index_dec_string [of i]
    by (simp add: prop_string_def dec_value_dec_string)
  then show ?thesis
    by (auto simp: query_pairs_def query_keys_def index_keys_def)
qed

lemma query_pairs_JArray:
  assumes "length vs < 4294967295"
  shows "query_pairs (JArray vs) = map (\<lambda>i. (dec_string i, json_to_string (vs ! i))) [0..<length vs]"
proof -
  have "prop_string (JArray vs) (dec_string i) = json_to_string (vs ! i)" if "i < length vs" for i
    using that assms is_array_index_dec_string [of i]
    by (simp add: prop_string_def dec_value_dec_string)
  then show ?thesis
    by (simp add: query_pairs_def query_keys_def index_keys_def)
qed

text \<open>
  C23. The query branch accepts any JSON value, not only the flat object of the
  specification: a string gives one pair per character, keyed by its index; an array
  one pair per element, keyed by its index, with the element's string form (\<open>null\<close>
  giving \<open>"null"\<close>); a number, a boolean or \<open>null\<close> gives no query at all.
\<close>

theorem queryStringified_non_object:
  assumes "length s < 4294967295" "length vs < 4294967295"
  shows "queryStringified url (JString s) =
      query_string_spec url (map (\<lambda>i. (dec_string i, [s ! i])) [0..<length s]) \<and>
    queryStringified url (JArray vs) =
      query_string_spec url (map (\<lambda>i. (dec_string i, json_to_string (vs ! i))) [0..<length vs]) \<and>
    queryStringified url (JNum n) = url \<and> queryStringified url (JBool b) = url \<and>
    queryStringified url JNull = url"
  using query_pairs_JString [OF assms(1)] query_pairs_JArray [OF assms(2)]
  by (simp add: queryStringified_eq_spec query_string_spec_def query_pairs_def query_keys_def)

theorem queryStringified_non_object_witness:
  "queryStringified ''u'' (JString ''ab'') = ''u?0=a&1=b'' \<and>
   queryStringified ''u'' (JArray [JNull, JNum 7]) = ''u?0=null&1=7''"
proof -
  have "length ''ab'' < 4294967295" "length [JNull, JNum 7] < 4294967295" by simp_all
  from queryStringified_non_object [OF this, of "''u''" 0 False] show ?thesis
    by (simp add: query_string_spec_def encode_pair_def dec_string_eval int_string_def
        encode_char_def uri_unreserved_def Let_def)
qed

end
