(* ===== verification/Adapter.thy ===== *)
theory Adapter
  imports Request Query
begin

text \<open>
  The input adapter \<open>xhrApi(input)\<close> of \<open>Request.js\<close> (lines 23--72 without the
  two closures it defines): it splits the input at \<open>*\<close>, and either builds a
  \<open>GET\<close> request to a query-string URL (first segment exactly \<open>"query"\<close>) or
  calls \<open>request\<close> with the upper-cased first segment, the second and the third.
  \<open>JSON.parse\<close> is the host's: a field of the \<open>host\<close> record, which extends the
  transport's \<open>browser\<close>.
\<close>

record host = browser +
  json_parse :: "js_string \<Rightarrow> json option"

text \<open>
  A conforming \<open>JSON.parse\<close> rejects the text \<open>"undefined"\<close> (the string
  \<open>JSON.parse(undefined)\<close> parses).
\<close>

definition conforming_host :: "host \<Rightarrow> bool" where
  "conforming_host h \<longleftrightarrow> json_parse h ''undefined'' = None"

text \<open>
  What one call of \<open>xhrApi\<close> does: it throws out of the event handler (nothing is
  shown), or it hands the promise of \<open>request\<close> to \<open>showResult\<close>, with the XHR that
  awaits a response if one went out.
\<close>

datatype dispatch = Thrown js_exc | Issued promise_state "xhr option"

definition issue :: "promise_state \<times> xhr option \<Rightarrow> dispatch" where
  "issue r = Issued (fst r) (snd r)"

text \<open>
  \<open>JSON.parse(input.split("*")[2])\<close>: a missing segment is \<open>undefined\<close>, which
  \<open>JSON.parse\<close> first converts to \<open>"undefined"\<close>; a parse failure throws a
  \<open>SyntaxError\<close>.
\<close>

definition parse_arg :: "host \<Rightarrow> js_string option \<Rightarrow> js_exc + json" where
  "parse_arg h s =
     (case json_parse h (case s of None \<Rightarrow> ''undefined'' | Some t \<Rightarrow> t) of
        None \<Rightarrow> Inl JsonSyntaxError
      | Some v \<Rightarrow> Inr v)"

text \<open>
  The query branch evaluates \<open>input.split("*")[1]\<close>, then \<open>JSON.parse\<close>, then runs
  \<open>queryStringified\<close>, whose \<open>url.concat\<close> throws a \<open>TypeError\<close> on
  \<open>undefined\<close>.
\<close>

definition query_branch :: "host \<Rightarrow> js_string list \<Rightarrow> dispatch" where
  "query_branch h seg =
     (case parse_arg h (js_nth seg 2) of
        Inl e \<Rightarrow> Thrown e
      | Inr q \<Rightarrow>
          (case js_nth seg 1 of
             None \<Rightarrow> Thrown TypeError
           | Some url \<Rightarrow> issue (request (browser.truncate h) ''GET'' (Some (queryStringified url q)) None)))"

definition xhrApi :: "host \<Rightarrow> js_string \<Rightarrow> dispatch" where
  "xhrApi h input =
     (let seg = js_split CHR ''*'' input in
      if js_nth seg 0 = Some ''query'' then query_branch h seg
      else issue (request (browser.truncate h) (js_toUpperCase (hd seg)) (js_nth seg 1) (js_nth seg 2)))"

subsection \<open>Splitting the input\<close>

lemma split3_star:
  "CHR ''*'' \<notin> set a \<Longrightarrow> CHR ''*'' \<notin> set b \<Longrightarrow> CHR ''*'' \<notin> set c \<Longrightarrow>
   js_split CHR ''*'' (a @ CHR ''*'' # b @ CHR ''*'' # c) = [a, b, c]"
  by (simp add: js_split_sep_word js_split_no_sep_word)

lemma split2_star:
  "CHR ''*'' \<notin> set a \<Longrightarrow> CHR ''*'' \<notin> set b \<Longrightarrow> js_split CHR ''*'' (a @ CHR ''*'' # b) = [a, b]"
  by (simp add: js_split_sep_word js_split_no_sep_word)

lemmas upper_eval = js_simps upper_char_def Let_def char_of_eq_iff

subsection \<open>Properties\<close>

text \<open>
  C11. An input \<open>method*url*payload\<close> whose first segment is not \<open>"query"\<close> calls
  \<open>request\<close> with the upper-cased method, the URL and the payload as they are.
\<close>

theorem xhrApi_method_branch:
  assumes "a \<noteq> ''query''" "CHR ''*'' \<notin> set a" "CHR ''*'' \<notin> set b" "CHR ''*'' \<notin> set c"
  shows "xhrApi h (a @ ''*'' @ b @ ''*'' @ c) =
    issue (request (browser.truncate h) (js_toUpperCase a) (Some b) (Some c))"
  using assms by (simp add: xhrApi_def split3_star)

theorem xhrApi_method_branch_witness:
  "xhrApi \<lparr>url_parses = \<lambda>_. True, json_parse = \<lambda>_. None\<rparr> ''post*abc*p'' =
     issue (request \<lparr>url_parses = \<lambda>_. True\<rparr> ''POST'' (Some ''abc'') (Some ''p''))"
proof -
  have u: "js_toUpperCase ''post'' = ''POST''" by (simp add: upper_eval)
  show ?thesis
    using xhrApi_method_branch [of "''post''" "''abc''" "''p''" "\<lparr>url_parses = \<lambda>_. True, json_parse = \<lambda>_. None\<rparr>"] u
    by (simp add: browser.truncate_def)
qed

text \<open>
  C12. An input \<open>query*url*json\<close> whose third segment parses issues a \<open>GET\<close> to
  \<open>queryStringified(url, parsed)\<close> with no body.
\<close>

theorem xhrApi_query_branch:
  assumes "CHR ''*'' \<notin> set u" "CHR ''*'' \<notin> set j" "json_parse h j = Some q"
  shows "xhrApi h (''query*'' @ u @ ''*'' @ j) =
    issue (request (browser.truncate h) ''GET'' (Some (queryStringified u q)) None)"
  using assms split3_star [of "''query''" u j]
  by (simp add: xhrApi_def query_branch_def parse_arg_def)

theorem xhrApi_query_branch_witness:
  "xhrApi \<lparr>url_parses = \<lambda>_. True, json_parse = \<lambda>s. if s = ''{}'' then Some (JObject []) else None\<rparr>
      ''query*abc*{}'' =
     issue (request \<lparr>url_parses = \<lambda>_. True\<rparr> ''GET'' (Some (queryStringified ''abc'' (JObject []))) None)"
  using xhrApi_query_branch [of "''abc''" "''{}''"
      "\<lparr>url_parses = \<lambda>_. True, json_parse = \<lambda>s. if s = ''{}'' then Some (JObject []) else None\<rparr>"
      "JObject []"]
  by (simp add: browser.truncate_def)

text \<open>
  C13. The payload is cut at its first \<open>*\<close>: everything after the third \<open>*\<close> of
  the input is dropped, so \<open>post*url*a*b\<close> sends the payload \<open>a\<close>.
\<close>

theorem xhrApi_payload_truncated:
  assumes "a \<noteq> ''query''" "CHR ''*'' \<notin> set a" "CHR ''*'' \<notin> set b" "CHR ''*'' \<notin> set c"
  shows "xhrApi h (a @ ''*'' @ b @ ''*'' @ c @ ''*'' @ rest) = xhrApi h (a @ ''*'' @ b @ ''*'' @ c)"
  using assms by (simp add: xhrApi_def js_split_sep_word js_split_no_sep_word)

theorem xhrApi_payload_truncated_witness:
  "xhrApi \<lparr>url_parses = \<lambda>_. True, json_parse = \<lambda>_. None\<rparr> ''post*u*a*b'' =
     xhrApi \<lparr>url_parses = \<lambda>_. True, json_parse = \<lambda>_. None\<rparr> ''post*u*a''"
  using xhrApi_payload_truncated [of "''post''" "''u''" "''a''"
      "\<lparr>url_parses = \<lambda>_. True, json_parse = \<lambda>_. None\<rparr>" "''b''"]
  by simp

text \<open>
  C14. The test for the query command is case-sensitive: \<open>QUERY*url*json\<close> is an
  ordinary request with the method \<open>QUERY\<close>, the URL and the JSON text as payload.
\<close>

theorem xhrApi_query_case_sensitive:
  assumes "CHR ''*'' \<notin> set u" "CHR ''*'' \<notin> set j"
  shows "xhrApi h (''QUERY*'' @ u @ ''*'' @ j) =
    issue (request (browser.truncate h) ''QUERY'' (Some u) (Some j))"
  using assms split3_star [of "''QUERY''" u j]
  by (simp add: xhrApi_def upper_eval)

theorem xhrApi_query_case_sensitive_witness:
  "xhrApi \<lparr>url_parses = \<lambda>_. True, json_parse = \<lambda>_. None\<rparr> ''QUERY*abc*{}'' =
     issue (request \<lparr>url_parses = \<lambda>_. True\<rparr> ''QUERY'' (Some ''abc'') (Some ''{}''))"
  using xhrApi_query_case_sensitive [of "''abc''" "''{}''" "\<lparr>url_parses = \<lambda>_. True, json_parse = \<lambda>_. None\<rparr>"]
  by (simp add: browser.truncate_def)

text \<open>
  C15. A query command without its JSON segment throws \<open>JSON.parse\<close>'s
  \<open>SyntaxError\<close> out of the event handler: no request is made and nothing is shown.
\<close>

theorem xhrApi_query_missing_json:
  assumes "conforming_host h" "CHR ''*'' \<notin> set u"
  shows "xhrApi h (''query*'' @ u) = Thrown JsonSyntaxError"
  using assms split2_star [of "''query''" u]
  by (simp add: xhrApi_def query_branch_def parse_arg_def conforming_host_def)

theorem xhrApi_query_missing_json_witness:
  "xhrApi \<lparr>url_parses = \<lambda>_. True, json_parse = \<lambda>_. None\<rparr> ''query*abc'' = Thrown JsonSyntaxError"
  using xhrApi_query_missing_json [of "\<lparr>url_parses = \<lambda>_. True, json_parse = \<lambda>_. None\<rparr>" "''abc''"]
  by (simp add: conforming_host_def)

text \<open>
  C16. An input with an empty first segment (empty, or starting with \<open>*\<close>) is
  rejected with \<open>"Please enter an http method"\<close> and sends nothing.
\<close>

theorem xhrApi_empty_method:
  "input = [] \<or> hd input = CHR ''*'' \<Longrightarrow>
   xhrApi h input = Issued (Rejected (JStr ''Please enter an http method'')) None"
  by (cases input) (auto simp: xhrApi_def js_simps issue_def request_def method_missing_msg_def)

theorem xhrApi_empty_method_witness:
  "xhrApi \<lparr>url_parses = \<lambda>_. True, json_parse = \<lambda>_. None\<rparr> ''*abc'' =
     Issued (Rejected (JStr ''Please enter an http method'')) None"
  using xhrApi_empty_method [of "''*abc''"] by simp

end
