(* ===== verification/Page.thy ===== *)
theory Page
  imports Adapter
begin

text \<open>
  The page around \<open>xhrApi\<close> (\<open>Request.js\<close> lines 4--21 and 74--85) and the browser's
  event loop that runs it. \<open>genericHtml\<close> replaces the \<open>.response-data\<close> element
  by a new one holding the text of a value; \<open>showResult\<close> chains
  \<open>.then(res => genericHtml(res)).catch(rej => genericHtml(rej))\<close> on the promise of
  \<open>request\<close>; \<open>callXhr\<close> runs \<open>xhrApi\<close> on the text field's value; the
  \<open>keyup\<close> listener calls it on Enter (key code 13), the button's \<open>click\<close> listener
  always.

  A page state holds the text field, the \<open>.response-data\<close> element (\<open>None\<close> when
  there is none; \<open>Some v\<close>: its text node is \<open>String(v)\<close>), one entry per request
  with its XHR and the three promises of its chain, the microtask queue, and two
  records of what happened: the order in which requests completed (their first promise
  settled) and the calls of \<open>genericHtml\<close> that replaced the element.
  The browser runs one task at a time (a user event or a response), and only when the
  microtask queue is empty; a microtask step runs the first reaction job.
\<close>

record req =
  rq_xhr :: "xhr option"
  p_req :: promise_state
  p_then :: promise_state
  p_catch :: promise_state

datatype job = ThenJob nat | CatchJob nat

record page =
  input_value :: js_string
  response_el :: "js_val option"
  reqs :: "req list"
  jobs :: "job list"
  completed :: "nat list"
  shown :: "(nat \<times> js_val) list"

definition init_page :: "js_string \<Rightarrow> page" where
  "init_page html = \<lparr>input_value = [], response_el = Some (JStr html), reqs = [], jobs = [],
     completed = [], shown = []\<rparr>"

subsection \<open>genericHtml and showResult\<close>

text \<open>
  \<open>document.querySelector(".response-data")\<close> is \<open>null\<close> when the element is
  missing, and \<open>oldResponseData.replaceWith(...)\<close> then throws a \<open>TypeError\<close>.
  Otherwise the new element, of the same class, holds the value's text.
\<close>

definition genericHtml :: "js_val \<Rightarrow> js_val option \<Rightarrow> js_exc + js_val option" where
  "genericHtml response el = (case el of None \<Rightarrow> Inl TypeError | Some _ \<Rightarrow> Inr (Some response))"

text \<open>The arrow functions \<open>res => genericHtml(res)\<close> return \<open>undefined\<close>.\<close>

definition html_handler :: "js_val option \<Rightarrow> js_val \<Rightarrow> js_exc + js_val" where
  "html_handler el v = (case genericHtml v el of Inl e \<Rightarrow> Inl e | Inr _ \<Rightarrow> Inr JUndefined)"

definition html_effect :: "nat \<Rightarrow> js_val \<Rightarrow> page \<Rightarrow> page" where
  "html_effect i v s =
     (case genericHtml v (response_el s) of
        Inl _ \<Rightarrow> s
      | Inr el \<Rightarrow> s\<lparr>response_el := el, shown := shown s @ [(i, v)]\<rparr>)"

text \<open>
  \<open>showResult(result)\<close> registers the two reactions. The entry of the new request
  gets the next index; when its promise is already settled (a synchronous rejection)
  the reaction job of \<open>then\<close> is queued at once, and the request has completed.
\<close>

definition queue_if_settled :: "promise_state \<Rightarrow> nat \<Rightarrow> job list" where
  "queue_if_settled p i = (if p = Pending then [] else [ThenJob i])"

definition completes_if_settled :: "promise_state \<Rightarrow> nat \<Rightarrow> nat list" where
  "completes_if_settled p i = (if p = Pending then [] else [i])"

definition showResult :: "promise_state \<Rightarrow> xhr option \<Rightarrow> page \<Rightarrow> page" where
  "showResult p xo s =
     (let i = length (reqs s) in
      s\<lparr>reqs := reqs s @ [\<lparr>rq_xhr = xo, p_req = p, p_then = Pending, p_catch = Pending\<rparr>],
        jobs := jobs s @ queue_if_settled p i,
        completed := completed s @ completes_if_settled p i\<rparr>)"

subsection \<open>The listeners\<close>

text \<open>
  An exception thrown by \<open>xhrApi\<close> leaves the listener; the page is unchanged (the
  browser reports it on the console).
\<close>

definition callXhr :: "host \<Rightarrow> page \<Rightarrow> page" where
  "callXhr h s =
     (case xhrApi h (input_value s) of
        Thrown e \<Rightarrow> s
      | Issued p xo \<Rightarrow> showResult p xo s)"

definition on_keyup :: "host \<Rightarrow> nat \<Rightarrow> page \<Rightarrow> page" where
  "on_keyup h key s = (if key = 13 then callXhr h s else s)"

definition on_click :: "host \<Rightarrow> page \<Rightarrow> page" where
  "on_click h s = callXhr h s"

subsection \<open>Responses\<close>

text \<open>
  The response task of request \<open>i\<close>: the XHR's \<open>load\<close> or \<open>error\<close> delivery,
  and, when it settles the request's promise, the reaction job of \<open>then\<close>.
\<close>

definition settle_entry :: "nat \<Rightarrow> xhr \<times> promise_state \<Rightarrow> page \<Rightarrow> page" where
  "settle_entry i xp s =
     (let r = reqs s ! i; newly = (p_req r = Pending \<and> snd xp \<noteq> Pending) in
      s\<lparr>reqs := (reqs s)[i := r\<lparr>rq_xhr := Some (fst xp), p_req := snd xp\<rparr>],
        jobs := jobs s @ (if newly then [ThenJob i] else []),
        completed := completed s @ (if newly then [i] else [])\<rparr>)"

definition net_load :: "nat \<Rightarrow> http_status \<Rightarrow> js_string \<Rightarrow> page \<Rightarrow> page" where
  "net_load i st body s =
     (case rq_xhr (reqs s ! i) of
        None \<Rightarrow> s
      | Some x \<Rightarrow> settle_entry i (deliver_load st body (x, p_req (reqs s ! i))) s)"

definition net_error :: "nat \<Rightarrow> page \<Rightarrow> page" where
  "net_error i s =
     (case rq_xhr (reqs s ! i) of
        None \<Rightarrow> s
      | Some x \<Rightarrow> settle_entry i (deliver_error (x, p_req (reqs s ! i))) s)"

subsection \<open>Reaction jobs\<close>

text \<open>
  The job of \<open>then\<close> calls \<open>genericHtml\<close> on a fulfilment value and settles the
  second promise; a rejection passes through to it. Either way the second promise is
  settled, and the job of \<open>catch\<close> is queued. That job calls \<open>genericHtml\<close> on a
  rejection reason and settles the third promise.
\<close>

definition run_then :: "nat \<Rightarrow> page \<Rightarrow> page" where
  "run_then i s =
     (let r = reqs s ! i;
          s' = (case p_req r of Fulfilled v \<Rightarrow> html_effect i v s | _ \<Rightarrow> s)
      in s'\<lparr>reqs := (reqs s)[i := r\<lparr>p_then := then_reaction (html_handler (response_el s)) (p_req r)\<rparr>],
            jobs := jobs s @ [CatchJob i]\<rparr>)"

definition run_catch :: "nat \<Rightarrow> page \<Rightarrow> page" where
  "run_catch i s =
     (let r = reqs s ! i;
          s' = (case p_then r of Rejected e \<Rightarrow> html_effect i e s | _ \<Rightarrow> s)
      in s'\<lparr>reqs := (reqs s)[i := r\<lparr>p_catch := catch_reaction (html_handler (response_el s)) (p_then r)\<rparr>]\<rparr>)"

fun run_job :: "job \<Rightarrow> page \<Rightarrow> page" where
  "run_job (ThenJob i) s = run_then i s"
| "run_job (CatchJob i) s = run_catch i s"

subsection \<open>The event loop\<close>

datatype event = Typed js_string | KeyUp nat | Click | Load nat http_status js_string | NetError nat

text \<open>The browser delivers a response only to a request that awaits one.\<close>

fun event_enabled :: "page \<Rightarrow> event \<Rightarrow> bool" where
  "event_enabled s (Load i st b) =
     (i < length (reqs s) \<and> (\<exists>x. rq_xhr (reqs s ! i) = Some x \<and> awaiting_response x))"
| "event_enabled s (NetError i) =
     (i < length (reqs s) \<and> (\<exists>x. rq_xhr (reqs s ! i) = Some x \<and> awaiting_response x))"
| "event_enabled s _ = True"

fun page_task :: "host \<Rightarrow> event \<Rightarrow> page \<Rightarrow> page" where
  "page_task h (Typed v) s = s\<lparr>input_value := v\<rparr>"
| "page_task h (KeyUp k) s = on_keyup h k s"
| "page_task h Click s = on_click h s"
| "page_task h (Load i st b) s = net_load i st b s"
| "page_task h (NetError i) s = net_error i s"

inductive page_step :: "host \<Rightarrow> page \<Rightarrow> page \<Rightarrow> bool" where
  task: "jobs s = [] \<Longrightarrow> event_enabled s e \<Longrightarrow> page_step h s (page_task h e s)"
| microtask: "jobs s = j # js \<Longrightarrow> page_step h s (run_job j (s\<lparr>jobs := js\<rparr>))"

inductive reachable :: "host \<Rightarrow> js_string \<Rightarrow> page \<Rightarrow> bool" where
  init: "reachable h html (init_page html)"
| step: "reachable h html s \<Longrightarrow> page_step h s t \<Longrightarrow> reachable h html t"

end
