(* ===== verification/Page_Inv.thy ===== *)
theory Page_Inv
  imports Page "HOL-Library.Sublist"
begin

text \<open>
  The invariant of the page and what it gives. Every reachable state keeps the
  \<open>.response-data\<close> element; each request's three promises settle in chain order
  and agree with its XHR; the microtask queue holds at most the one pending reaction of
  the request that completed last; and the calls of \<open>genericHtml\<close> made so far,
  followed by the one still queued, list the completed requests in completion order.
  From it: when the queue is empty the page shows the outcome of the request that
  completed last, every completed request was shown exactly once, the queue always
  drains, and a response that arrives is shown.
\<close>

subsection \<open>The invariant\<close>

fun then_value :: "promise_state \<Rightarrow> promise_state" where
  "then_value (Fulfilled v) = Fulfilled JUndefined"
| "then_value (Rejected e) = Rejected e"
| "then_value Pending = Pending"

fun xhr_ok :: "xhr option \<Rightarrow> promise_state \<Rightarrow> bool" where
  "xhr_ok None p = (p \<noteq> Pending)"
| "xhr_ok (Some x) p = (onload_set x \<and> onerror_set x \<and> (p = Pending \<longleftrightarrow> awaiting_response x))"

definition req_ok :: "req \<Rightarrow> bool" where
  "req_ok r \<longleftrightarrow>
     xhr_ok (rq_xhr r) (p_req r) \<and>
     (p_then r = Pending \<or> p_then r = then_value (p_req r)) \<and>
     (p_then r = Pending \<longrightarrow> p_catch r = Pending)"

fun job_req :: "job \<Rightarrow> nat" where
  "job_req (ThenJob i) = i"
| "job_req (CatchJob i) = i"

fun is_rejected :: "promise_state \<Rightarrow> bool" where
  "is_rejected (Rejected e) = True"
| "is_rejected _ = False"

fun pending_display :: "req list \<Rightarrow> job list \<Rightarrow> nat list" where
  "pending_display rs [ThenJob i] = [i]"
| "pending_display rs [CatchJob i] = (if is_rejected (p_then (rs ! i)) then [i] else [])"
| "pending_display rs _ = []"

fun queue_shape :: "req list \<Rightarrow> nat list \<Rightarrow> job list \<Rightarrow> bool" where
  "queue_shape rs cs [] = True"
| "queue_shape rs cs [ThenJob i] =
     (cs \<noteq> [] \<and> i = last cs \<and> p_req (rs ! i) \<noteq> Pending \<and> p_then (rs ! i) = Pending)"
| "queue_shape rs cs [CatchJob i] =
     (cs \<noteq> [] \<and> i = last cs \<and> p_then (rs ! i) \<noteq> Pending \<and> p_catch (rs ! i) = Pending)"
| "queue_shape rs cs _ = False"

definition reactions_done :: "req list \<Rightarrow> job list \<Rightarrow> bool" where
  "reactions_done rs js \<longleftrightarrow>
     (\<forall>i < length rs. p_req (rs ! i) \<noteq> Pending \<longrightarrow> i \<notin> job_req ` set js \<longrightarrow> p_catch (rs ! i) \<noteq> Pending)"

definition settled_set :: "req list \<Rightarrow> nat set" where
  "settled_set rs = {i. i < length rs \<and> p_req (rs ! i) \<noteq> Pending}"

definition shown_ok :: "req list \<Rightarrow> (nat \<times> js_val) list \<Rightarrow> bool" where
  "shown_ok rs sh \<longleftrightarrow> (\<forall>(i, v) \<in> set sh. i < length rs \<and> v = outcome_value (p_req (rs ! i)))"

definition inv_fields ::
  "js_string \<Rightarrow> js_val option \<Rightarrow> req list \<Rightarrow> job list \<Rightarrow> nat list \<Rightarrow> (nat \<times> js_val) list \<Rightarrow> bool" where
  "inv_fields html el rs js cs sh \<longleftrightarrow>
     (\<forall>i < length rs. req_ok (rs ! i)) \<and>
     distinct cs \<and> set cs = settled_set rs \<and>
     reactions_done rs js \<and> queue_shape rs cs js \<and>
     map fst sh @ pending_display rs js = cs \<and>
     shown_ok rs sh \<and>
     el = (if sh = [] then Some (JStr html) else Some (snd (last sh)))"

definition page_inv :: "js_string \<Rightarrow> page \<Rightarrow> bool" where
  "page_inv html s \<longleftrightarrow> inv_fields html (response_el s) (reqs s) (jobs s) (completed s) (shown s)"

subsection \<open>Preservation\<close>

lemma page_inv_init: "page_inv html (init_page html)"
  by (simp add: page_inv_def inv_fields_def init_page_def reactions_done_def settled_set_def shown_ok_def)

lemma page_inv_typed: "page_inv html s \<Longrightarrow> page_inv html (s\<lparr>input_value := v\<rparr>)"
  by (simp add: page_inv_def)

lemma page_inv_element: "page_inv html s \<Longrightarrow> response_el s \<noteq> None"
  by (simp add: page_inv_def inv_fields_def)



lemma settled_set_snoc:
  "settled_set (rs @ [r]) = settled_set rs \<union> (if p_req r = Pending then {} else {length rs})"
  by (auto simp: settled_set_def nth_append less_Suc_eq)

lemma settled_set_bound: "i \<in> settled_set rs \<Longrightarrow> i < length rs"
  by (simp add: settled_set_def)

lemma shown_ok_snoc_req: "shown_ok rs sh \<Longrightarrow> shown_ok (rs @ [r]) sh"
  by (auto simp: shown_ok_def nth_append)

lemma reactions_done_snoc:
  "reactions_done rs [] \<Longrightarrow> reactions_done (rs @ [r]) (queue_if_settled (p_req r) (length rs))"
  by (auto simp: reactions_done_def queue_if_settled_def nth_append less_Suc_eq)

lemma inv_showResult:
  assumes inv: "page_inv html s" and q: "jobs s = []"
    and pr: "(xo = None \<and> p \<noteq> Pending) \<or>
      (\<exists>x. xo = Some x \<and> p = Pending \<and> awaiting_response x \<and> onload_set x \<and> onerror_set x)"
  shows "page_inv html (showResult p xo s)"
proof -
  let ?rs = "reqs s" and ?r = "\<lparr>rq_xhr = xo, p_req = p, p_then = Pending, p_catch = Pending\<rparr>"
  let ?n = "length (reqs s)"
  from inv q have
    ok: "\<forall>i < ?n. req_ok (?rs ! i)" and dist: "distinct (completed s)"
    and cs: "set (completed s) = settled_set ?rs" and rd: "reactions_done ?rs []"
    and disp: "map fst (shown s) = completed s" and sh: "shown_ok ?rs (shown s)"
    and el: "response_el s = (if shown s = [] then Some (JStr html) else Some (snd (last (shown s))))"
    by (simp_all add: page_inv_def inv_fields_def)
  have r_ok: "req_ok ?r" using pr by (auto simp: req_ok_def)
  have ok': "\<forall>i < Suc ?n. req_ok ((?rs @ [?r]) ! i)"
    using ok r_ok by (auto simp: nth_append less_Suc_eq)
  have n_new: "?n \<notin> set (completed s)" using cs by (auto dest: settled_set_bound)
  have rd': "reactions_done (?rs @ [?r]) (queue_if_settled p ?n)"
    using reactions_done_snoc [OF rd, of ?r] by simp
  have fields: "reqs (showResult p xo s) = ?rs @ [?r]"
    "jobs (showResult p xo s) = queue_if_settled p ?n"
    "completed (showResult p xo s) = completed s @ completes_if_settled p ?n"
    "shown (showResult p xo s) = shown s" "response_el (showResult p xo s) = response_el s"
    using q by (simp_all add: showResult_def Let_def)
  show ?thesis
    unfolding page_inv_def inv_fields_def fields
  proof (intro conjI)
    show "distinct (completed s @ completes_if_settled p ?n)"
      using dist n_new by (simp add: completes_if_settled_def)
    show "set (completed s @ completes_if_settled p ?n) = settled_set (?rs @ [?r])"
      using cs by (simp add: completes_if_settled_def settled_set_snoc)
    show "queue_shape (?rs @ [?r]) (completed s @ completes_if_settled p ?n) (queue_if_settled p ?n)"
      by (simp add: queue_if_settled_def completes_if_settled_def)
    show "map fst (shown s) @ pending_display (?rs @ [?r]) (queue_if_settled p ?n) =
        completed s @ completes_if_settled p ?n"
      using disp by (simp add: queue_if_settled_def completes_if_settled_def)
  qed (use ok' rd' sh el in \<open>simp_all add: shown_ok_snoc_req\<close>)
qed

lemma settled_set_update:
  "i < length rs \<Longrightarrow>
   settled_set (rs[i := r]) = (settled_set rs - {i}) \<union> (if p_req r = Pending then {} else {i})"
  by (auto simp: settled_set_def nth_list_update split: if_splits)

lemma shown_ok_update:
  assumes "shown_ok rs sh" "i \<notin> fst ` set sh" "i < length rs"
  shows "shown_ok (rs[i := r]) sh"
  unfolding shown_ok_def
proof (intro ballI, clarify)
  fix j v
  assume jv: "(j, v) \<in> set sh"
  with assms(2) have "j \<noteq> i" by force
  with jv assms(1) show "j < length (rs[i := r]) \<and> v = outcome_value (p_req (rs[i := r] ! j))"
    by (auto simp: shown_ok_def)
qed

lemma req_ok_pending:
  "req_ok r \<Longrightarrow> rq_xhr r = Some x \<Longrightarrow> awaiting_response x \<Longrightarrow>
   p_req r = Pending \<and> p_then r = Pending \<and> p_catch r = Pending \<and> onload_set x \<and> onerror_set x"
  by (auto simp: req_ok_def)

lemma inv_settle_entry:
  assumes inv: "page_inv html s" and q: "jobs s = []" and i: "i < length (reqs s)"
    and x: "rq_xhr (reqs s ! i) = Some x" "awaiting_response x"
    and p': "p' \<noteq> Pending"
    and x': "\<not> awaiting_response x'" "onload_set x' = onload_set x" "onerror_set x' = onerror_set x"
  shows "page_inv html (settle_entry i (x', p') s)"
proof -
  let ?rs = "reqs s" and ?r = "reqs s ! i"
  let ?r' = "?r\<lparr>rq_xhr := Some x', p_req := p'\<rparr>"
  from inv q have
    ok: "\<forall>j < length ?rs. req_ok (?rs ! j)" and dist: "distinct (completed s)"
    and cs: "set (completed s) = settled_set ?rs" and rd: "reactions_done ?rs []"
    and disp: "map fst (shown s) = completed s" and sh: "shown_ok ?rs (shown s)"
    and el: "response_el s = (if shown s = [] then Some (JStr html) else Some (snd (last (shown s))))"
    by (simp_all add: page_inv_def inv_fields_def)
  from ok i x have pend: "p_req ?r = Pending" "p_then ?r = Pending" "p_catch ?r = Pending"
    "onload_set x" "onerror_set x"
    using req_ok_pending [of ?r x] by auto
  have r_ok: "req_ok ?r'" using pend p' x' by (simp add: req_ok_def)
  have ok': "\<forall>j < length ?rs. req_ok ((?rs[i := ?r']) ! j)"
    using ok r_ok i by (auto simp: nth_list_update)
  have i_new: "i \<notin> set (completed s)" using cs pend by (simp add: settled_set_def)
  have fields: "reqs (settle_entry i (x', p') s) = ?rs[i := ?r']"
    "jobs (settle_entry i (x', p') s) = [ThenJob i]"
    "completed (settle_entry i (x', p') s) = completed s @ [i]"
    "shown (settle_entry i (x', p') s) = shown s" "response_el (settle_entry i (x', p') s) = response_el s"
    using q pend p' by (simp_all add: settle_entry_def Let_def)
  show ?thesis
    unfolding page_inv_def inv_fields_def fields
  proof (intro conjI)
    show "distinct (completed s @ [i])" using dist i_new by simp
    show "set (completed s @ [i]) = settled_set (?rs[i := ?r'])"
      using cs i i_new p' by (auto simp: settled_set_update)
    show "reactions_done (?rs[i := ?r']) [ThenJob i]"
      using rd by (auto simp: reactions_done_def nth_list_update)
    show "queue_shape (?rs[i := ?r']) (completed s @ [i]) [ThenJob i]"
      using i pend p' by simp
    show "map fst (shown s) @ pending_display (?rs[i := ?r']) [ThenJob i] = completed s @ [i]"
      using disp by simp
    have "i \<notin> fst ` set (shown s)"
      using i_new disp by (metis set_map)
    then show "shown_ok (?rs[i := ?r']) (shown s)"
      by (rule shown_ok_update [OF sh _ i])
  qed (use ok' el in simp_all)
qed

lemma then_reaction_present: "then_reaction (html_handler (Some e)) p = then_value p"
  by (cases p) (simp_all add: html_handler_def genericHtml_def handler_result_def)

lemma catch_reaction_present:
  "p \<noteq> Pending \<Longrightarrow> catch_reaction (html_handler (Some e)) p = Fulfilled (if is_rejected p then JUndefined else outcome_value p)"
  by (cases p) (simp_all add: html_handler_def genericHtml_def handler_result_def)

lemma html_effect_present:
  "response_el s = Some e \<Longrightarrow> html_effect i v s = s\<lparr>response_el := Some v, shown := shown s @ [(i, v)]\<rparr>"
  by (simp add: html_effect_def genericHtml_def)

lemma shown_ok_same_req:
  assumes "shown_ok rs sh" "i < length rs" "p_req r = p_req (rs ! i)"
  shows "shown_ok (rs[i := r]) sh"
  using assms by (auto simp: shown_ok_def nth_list_update)

lemma then_value_rejected: "then_value p = Rejected e \<Longrightarrow> p = Rejected e"
  by (cases p) auto

lemma inv_run_then:
  assumes inv: "page_inv html s" and q: "jobs s = [ThenJob i]"
  shows "page_inv html (run_then i (s\<lparr>jobs := []\<rparr>))"
proof -
  let ?rs = "reqs s" and ?r = "reqs s ! i"
  let ?r' = "?r\<lparr>p_then := then_value (p_req ?r)\<rparr>"
  from inv q have
    ok: "\<forall>j < length ?rs. req_ok (?rs ! j)" and dist: "distinct (completed s)"
    and cs: "set (completed s) = settled_set ?rs" and rd: "reactions_done ?rs [ThenJob i]"
    and qne: "completed s \<noteq> []" and ilast: "i = last (completed s)"
    and qs: "p_req ?r \<noteq> Pending \<and> p_then ?r = Pending"
    and disp: "map fst (shown s) @ [i] = completed s" and sh: "shown_ok ?rs (shown s)"
    and el: "response_el s = (if shown s = [] then Some (JStr html) else Some (snd (last (shown s))))"
    by (auto simp: page_inv_def inv_fields_def)
  have i: "i < length ?rs" using qne ilast cs by (metis last_in_set settled_set_bound)
  from ok i qs have pc: "p_catch ?r = Pending" by (auto simp: req_ok_def)
  obtain e where e: "response_el s = Some e" using el by (cases "shown s = []") auto
  have r_ok: "req_ok ?r'" using ok i pc by (auto simp: req_ok_def)
  have ok': "\<forall>j < length ?rs. req_ok ((?rs[i := ?r']) ! j)"
    using ok r_ok i by (auto simp: nth_list_update)
  have cs': "settled_set (?rs[i := ?r']) = settled_set ?rs"
    using i by (auto simp: settled_set_def nth_list_update)
  have rd': "reactions_done (?rs[i := ?r']) [CatchJob i]"
    using rd i by (auto simp: reactions_done_def nth_list_update)
  have qs': "queue_shape (?rs[i := ?r']) (completed s) [CatchJob i]"
    using qne ilast qs i pc by (cases "p_req ?r") auto
  have sh': "shown_ok (?rs[i := ?r']) (shown s)"
    using sh i by (rule shown_ok_same_req) simp
  show ?thesis
  proof (cases "p_req ?r")
    case Pending
    with qs show ?thesis by simp
  next
    case (Fulfilled v)
    have st: "run_then i (s\<lparr>jobs := []\<rparr>) =
        s\<lparr>jobs := [CatchJob i], response_el := Some v, shown := shown s @ [(i, v)], reqs := ?rs[i := ?r']\<rparr>"
      using Fulfilled e by (simp add: run_then_def html_effect_present then_reaction_present)
    have sv: "shown_ok (?rs[i := ?r']) (shown s @ [(i, v)])"
      using sh' i Fulfilled by (simp add: shown_ok_def)
    show ?thesis
      unfolding st page_inv_def inv_fields_def
      using ok' dist cs cs' rd' qs' disp sv Fulfilled i by (simp del: queue_shape.simps)
  next
    case (Rejected v)
    have st: "run_then i (s\<lparr>jobs := []\<rparr>) = s\<lparr>jobs := [CatchJob i], reqs := ?rs[i := ?r']\<rparr>"
      using Rejected e by (simp add: run_then_def then_reaction_present)
    show ?thesis
      unfolding st page_inv_def inv_fields_def
      using ok' dist cs cs' rd' qs' disp sh' el Rejected i by (simp del: queue_shape.simps)
  qed
qed

lemma inv_run_catch:
  assumes inv: "page_inv html s" and q: "jobs s = [CatchJob i]"
  shows "page_inv html (run_catch i (s\<lparr>jobs := []\<rparr>))"
proof -
  let ?rs = "reqs s" and ?r = "reqs s ! i"
  let ?r' = "?r\<lparr>p_catch := Fulfilled (if is_rejected (p_then ?r) then JUndefined else outcome_value (p_then ?r))\<rparr>"
  from inv q have
    ok: "\<forall>j < length ?rs. req_ok (?rs ! j)" and dist: "distinct (completed s)"
    and cs: "set (completed s) = settled_set ?rs" and rd: "reactions_done ?rs [CatchJob i]"
    and qne: "completed s \<noteq> []" and ilast: "i = last (completed s)"
    and qs: "p_then ?r \<noteq> Pending \<and> p_catch ?r = Pending"
    and disp: "map fst (shown s) @ pending_display ?rs [CatchJob i] = completed s"
    and sh: "shown_ok ?rs (shown s)"
    and el: "response_el s = (if shown s = [] then Some (JStr html) else Some (snd (last (shown s))))"
    by (auto simp: page_inv_def inv_fields_def)
  have i: "i < length ?rs" using qne ilast cs by (metis last_in_set settled_set_bound)
  from ok i qs have tv: "p_then ?r = then_value (p_req ?r)" by (auto simp: req_ok_def)
  obtain e where e: "response_el s = Some e" using el by (cases "shown s = []") auto
  have r_ok: "req_ok ?r'" using ok i qs by (auto simp: req_ok_def)
  have ok': "\<forall>j < length ?rs. req_ok ((?rs[i := ?r']) ! j)"
    using ok r_ok i by (auto simp: nth_list_update)
  have cs': "settled_set (?rs[i := ?r']) = settled_set ?rs"
    using i by (auto simp: settled_set_def nth_list_update)
  have rd': "reactions_done (?rs[i := ?r']) []"
    using rd i by (auto simp: reactions_done_def nth_list_update)
  have sh': "shown_ok (?rs[i := ?r']) (shown s)"
    using sh i by (rule shown_ok_same_req) simp
  have cr: "catch_reaction (html_handler (response_el s)) (p_then ?r) = p_catch ?r'"
    using e qs by (simp add: catch_reaction_present)
  show ?thesis
  proof (cases "is_rejected (p_then ?r)")
    case True
    then obtain v where v: "p_then ?r = Rejected v" by (cases "p_then ?r") auto
    then have pr: "p_req ?r = Rejected v" using tv by (simp add: then_value_rejected)
    have st: "run_catch i (s\<lparr>jobs := []\<rparr>) =
        s\<lparr>jobs := [], response_el := Some v, shown := shown s @ [(i, v)], reqs := ?rs[i := ?r']\<rparr>"
      using v e cr by (simp add: run_catch_def html_effect_present)
    have sv: "shown_ok (?rs[i := ?r']) (shown s @ [(i, v)])"
      using sh' i pr by (simp add: shown_ok_def)
    show ?thesis
      unfolding st page_inv_def inv_fields_def
      using ok' dist cs cs' rd' disp sv v i by (simp add: nth_list_update)
  next
    case False
    have st: "run_catch i (s\<lparr>jobs := []\<rparr>) = s\<lparr>jobs := [], reqs := ?rs[i := ?r']\<rparr>"
      using False e cr by (cases "p_then ?r") (simp_all add: run_catch_def)
    show ?thesis
      unfolding st page_inv_def inv_fields_def
      using ok' dist cs cs' rd' disp sh' el False i by (simp add: nth_list_update)
  qed
qed

lemma xhrApi_Issued_cases:
  assumes "xhrApi h inp = Issued p xo"
  shows "(xo = None \<and> p \<noteq> Pending) \<or>
    (\<exists>x. xo = Some x \<and> p = Pending \<and> awaiting_response x \<and> onload_set x \<and> onerror_set x)"
proof -
  from assms obtain br m u d where "request br m u d = (p, xo)"
    by (auto simp: xhrApi_def query_branch_def issue_def Let_def
        split: if_splits sum.splits option.splits)
  then show ?thesis by (rule request_result_cases)
qed

lemma inv_callXhr: "page_inv html s \<Longrightarrow> jobs s = [] \<Longrightarrow> page_inv html (callXhr h s)"
  by (auto simp: callXhr_def intro: inv_showResult dest: xhrApi_Issued_cases split: dispatch.splits)

lemma inv_net_load:
  assumes "page_inv html s" "jobs s = []" "event_enabled s (Load i st b)"
  shows "page_inv html (net_load i st b s)"
proof -
  from assms(3) obtain x where i: "i < length (reqs s)" and x: "rq_xhr (reqs s ! i) = Some x"
    and aw: "awaiting_response x" by auto
  from assms(1) i have "req_ok (reqs s ! i)" by (simp add: page_inv_def inv_fields_def)
  from req_ok_pending [OF this x aw] have pend: "p_req (reqs s ! i) = Pending" "onload_set x" by auto
  have "net_load i st b s = settle_entry i (xhr_finish x, onload_handler st b Pending) s"
    using x aw pend by (simp add: net_load_def deliver_load_awaiting)
  then show ?thesis
    using inv_settle_entry [OF assms(1,2) i x aw onload_handler_settled] by simp
qed

lemma inv_net_error:
  assumes "page_inv html s" "jobs s = []" "event_enabled s (NetError i)"
  shows "page_inv html (net_error i s)"
proof -
  from assms(3) obtain x where i: "i < length (reqs s)" and x: "rq_xhr (reqs s ! i) = Some x"
    and aw: "awaiting_response x" by auto
  from assms(1) i have "req_ok (reqs s ! i)" by (simp add: page_inv_def inv_fields_def)
  from req_ok_pending [OF this x aw] have pend: "p_req (reqs s ! i) = Pending" "onerror_set x" by auto
  have "net_error i s = settle_entry i (xhr_finish x, onerror_handler Pending) s"
    using x aw pend by (simp add: net_error_def deliver_error_awaiting)
  then show ?thesis
    using inv_settle_entry [OF assms(1,2) i x aw onerror_handler_settled] by simp
qed

lemma queue_cases:
  assumes "page_inv html s" "jobs s = j # js"
  obtains i where "j = ThenJob i" "js = []" | i where "j = CatchJob i" "js = []"
proof -
  from assms have "queue_shape (reqs s) (completed s) (j # js)"
    by (simp add: page_inv_def inv_fields_def)
  then show ?thesis using that
    by (cases "(reqs s, completed s, j # js)" rule: queue_shape.cases) auto
qed

lemma page_step_inv: "page_step h s t \<Longrightarrow> page_inv html s \<Longrightarrow> page_inv html t"
proof (induction rule: page_step.induct)
  case (task s e h)
  then show ?case
    by (cases e) (auto simp: on_keyup_def on_click_def intro: page_inv_typed inv_callXhr
        inv_net_load inv_net_error)
next
  case (microtask s j js h)
  from microtask.prems microtask.hyps show ?case
  proof (cases rule: queue_cases)
    case (1 i)
    with microtask show ?thesis by (simp add: inv_run_then)
  next
    case (2 i)
    with microtask show ?thesis by (simp add: inv_run_catch)
  qed
qed

lemma reachable_page_inv: "reachable h html s \<Longrightarrow> page_inv html s"
  by (induction rule: reachable.induct) (auto intro: page_inv_init page_step_inv)

subsection \<open>Draining the microtask queue\<close>

lemma p_req_list_update:
  "p_req r = p_req (rs ! i) \<Longrightarrow> p_req (rs[i := r] ! j) = p_req (rs ! j)"
  by (cases "i < length rs") (auto simp: nth_list_update list_update_beyond)

lemma rq_xhr_list_update:
  "rq_xhr r = rq_xhr (rs ! i) \<Longrightarrow> rq_xhr (rs[i := r] ! j) = rq_xhr (rs ! j)"
  by (cases "i < length rs") (auto simp: nth_list_update list_update_beyond)

lemma run_then_frame:
  "completed (run_then i s) = completed s" "jobs (run_then i s) = jobs s @ [CatchJob i]"
  "length (reqs (run_then i s)) = length (reqs s)"
  "p_req (reqs (run_then i s) ! j) = p_req (reqs s ! j)"
  "rq_xhr (reqs (run_then i s) ! j) = rq_xhr (reqs s ! j)"
  by (auto simp: run_then_def html_effect_def Let_def p_req_list_update rq_xhr_list_update
      split: promise_state.splits sum.splits)

lemma run_catch_frame:
  "completed (run_catch i s) = completed s" "jobs (run_catch i s) = jobs s"
  "length (reqs (run_catch i s)) = length (reqs s)"
  "p_req (reqs (run_catch i s) ! j) = p_req (reqs s ! j)"
  "rq_xhr (reqs (run_catch i s) ! j) = rq_xhr (reqs s ! j)"
  by (auto simp: run_catch_def html_effect_def Let_def p_req_list_update rq_xhr_list_update
      split: promise_state.splits sum.splits)

text \<open>At most two reaction jobs are queued, and running them queues nothing new after
  the job of \<open>catch\<close>: the queue empties in at most two microtask steps, which change
  neither the completed requests nor their outcomes.\<close>

lemma drain_queue:
  assumes "page_inv html s"
  shows "\<exists>t. (page_step h)\<^sup>*\<^sup>* s t \<and> jobs t = [] \<and> completed t = completed s \<and>
    length (reqs t) = length (reqs s) \<and> (\<forall>j. p_req (reqs t ! j) = p_req (reqs s ! j)) \<and>
    (\<forall>j. rq_xhr (reqs t ! j) = rq_xhr (reqs s ! j))"
proof (cases "jobs s")
  case Nil
  then show ?thesis by blast
next
  case (Cons j js)
  from assms Cons show ?thesis
  proof (cases rule: queue_cases)
    case (1 i)
    let ?s1 = "run_then i (s\<lparr>jobs := []\<rparr>)"
    let ?s2 = "run_catch i (?s1\<lparr>jobs := []\<rparr>)"
    have st1: "page_step h s ?s1"
      using page_step.microtask [of s j js h] Cons 1 by simp
    have j1: "jobs ?s1 = [CatchJob i]" by (simp add: run_then_frame)
    have st2: "page_step h ?s1 ?s2"
      using page_step.microtask [of ?s1 "CatchJob i" "[]" h] j1 by simp
    have "jobs ?s2 = []" by (simp add: run_catch_frame)
    moreover have "(page_step h)\<^sup>*\<^sup>* s ?s2" using st1 st2 by auto
    ultimately show ?thesis by (auto simp: run_then_frame run_catch_frame)
  next
    case (2 i)
    let ?s1 = "run_catch i (s\<lparr>jobs := []\<rparr>)"
    have "page_step h s ?s1"
      using page_step.microtask [of s j js h] Cons 2 by simp
    moreover have "jobs ?s1 = []" by (simp add: run_catch_frame)
    ultimately show ?thesis by (auto simp: run_catch_frame)
  qed
qed

lemma count_list_distinct:
  "distinct xs \<Longrightarrow> count_list xs x = (if x \<in> set xs then 1 else 0)"
  by (induction xs) auto

lemma reachable_star:
  "(page_step h)\<^sup>*\<^sup>* s t \<Longrightarrow> reachable h html s \<Longrightarrow> reachable h html t"
  by (induction rule: rtranclp_induct) (auto intro: reachable.step)

lemma quiescent_display_eq:
  assumes "page_inv html s" "jobs s = []"
  shows "map fst (shown s) = completed s \<and>
    response_el s = (if completed s = [] then Some (JStr html)
                     else Some (outcome_value (p_req (reqs s ! last (completed s)))))"
proof -
  from assms have
    disp: "map fst (shown s) = completed s" and sh: "shown_ok (reqs s) (shown s)"
    and el: "response_el s = (if shown s = [] then Some (JStr html) else Some (snd (last (shown s))))"
    by (simp_all add: page_inv_def inv_fields_def)
  show ?thesis
  proof (cases "shown s = []")
    case True
    with disp el show ?thesis by auto
  next
    case False
    then have "last (shown s) \<in> set (shown s)" by simp
    with sh have "snd (last (shown s)) = outcome_value (p_req (reqs s ! fst (last (shown s))))"
      by (auto simp: shown_ok_def split: prod.splits)
    moreover have "fst (last (shown s)) = last (completed s)"
      using disp False by (metis last_map)
    ultimately show ?thesis using disp el False by auto
  qed
qed

lemma net_load_effect:
  assumes "page_inv html s" "event_enabled s (Load i st b)"
  shows "completed (net_load i st b s) = completed s @ [i] \<and>
    p_req (reqs (net_load i st b s) ! i) = onload_handler st b Pending"
proof -
  from assms(2) obtain x where i: "i < length (reqs s)" and x: "rq_xhr (reqs s ! i) = Some x"
    and aw: "awaiting_response x" by auto
  from assms(1) i have "req_ok (reqs s ! i)" by (simp add: page_inv_def inv_fields_def)
  from req_ok_pending [OF this x aw] have pend: "p_req (reqs s ! i) = Pending" "onload_set x" by auto
  show ?thesis
    using x aw pend i onload_handler_settled [of st b]
    by (simp add: net_load_def deliver_load_awaiting settle_entry_def Let_def)
qed

lemma net_error_effect:
  assumes "page_inv html s" "event_enabled s (NetError i)"
  shows "completed (net_error i s) = completed s @ [i] \<and>
    p_req (reqs (net_error i s) ! i) = onerror_handler Pending"
proof -
  from assms(2) obtain x where i: "i < length (reqs s)" and x: "rq_xhr (reqs s ! i) = Some x"
    and aw: "awaiting_response x" by auto
  from assms(1) i have "req_ok (reqs s ! i)" by (simp add: page_inv_def inv_fields_def)
  from req_ok_pending [OF this x aw] have pend: "p_req (reqs s ! i) = Pending" "onerror_set x" by auto
  show ?thesis
    using x aw pend i onerror_handler_settled
    by (simp add: net_error_def deliver_error_awaiting settle_entry_def Let_def)
qed

text \<open>A task that completes request \<open>i\<close> with outcome \<open>p\<close>, followed by the reactions
  it queues, leaves the page idle and showing that outcome.\<close>

lemma task_then_drain:
  assumes "reachable h html s" "jobs s = []" "event_enabled s e"
    and eff: "completed (page_task h e s) = completed s @ [i]" "p_req (reqs (page_task h e s) ! i) = p"
  shows "\<exists>t. (page_step h)\<^sup>*\<^sup>* s t \<and> jobs t = [] \<and> response_el t = Some (outcome_value p)"
proof -
  let ?s1 = "page_task h e s"
  have step: "page_step h s ?s1" using page_step.task [OF assms(2) assms(3)] .
  have r1: "reachable h html ?s1" using assms(1) step by (rule reachable.step)
  obtain t where t: "(page_step h)\<^sup>*\<^sup>* ?s1 t" "jobs t = []" "completed t = completed ?s1"
    "\<forall>j. p_req (reqs t ! j) = p_req (reqs ?s1 ! j)"
    using drain_queue [OF reachable_page_inv [OF r1], of h] by blast
  have "reachable h html t" using reachable_star [OF t(1) r1] .
  from quiescent_display_eq [OF reachable_page_inv [OF this] t(2)] t(3,4) eff
  have "response_el t = Some (outcome_value p)" by simp
  moreover have "(page_step h)\<^sup>*\<^sup>* s t" using step t(1) by (simp add: converse_rtranclp_into_rtranclp)
  ultimately show ?thesis using t(2) by blast
qed

lemma load_then_drain:
  assumes "reachable h html s" "jobs s = []" "event_enabled s (Load i st b)"
  shows "\<exists>t. (page_step h)\<^sup>*\<^sup>* s t \<and> jobs t = [] \<and>
    response_el t = Some (outcome_value (onload_handler st b Pending))"
proof -
  have "completed (page_task h (Load i st b) s) = completed s @ [i]"
    "p_req (reqs (page_task h (Load i st b) s) ! i) = onload_handler st b Pending"
    using net_load_effect [OF reachable_page_inv [OF assms(1)] assms(3)] by simp_all
  then show ?thesis by (rule task_then_drain [OF assms])
qed

lemma error_then_drain:
  assumes "reachable h html s" "jobs s = []" "event_enabled s (NetError i)"
  shows "\<exists>t. (page_step h)\<^sup>*\<^sup>* s t \<and> jobs t = [] \<and>
    response_el t = Some (JStr ''Failed during fetching data from Api (View console for details..)'')"
proof -
  have "outcome_value (onerror_handler Pending) =
      JStr ''Failed during fetching data from Api (View console for details..)''"
    by (simp add: onerror_handler_def fetch_failed_msg_def)
  moreover have "\<exists>t. (page_step h)\<^sup>*\<^sup>* s t \<and> jobs t = [] \<and>
      response_el t = Some (outcome_value (onerror_handler Pending))"
  proof -
    have "completed (page_task h (NetError i) s) = completed s @ [i]"
      "p_req (reqs (page_task h (NetError i) s) ! i) = onerror_handler Pending"
      using net_error_effect [OF reachable_page_inv [OF assms(1)] assms(3)] by simp_all
    then show ?thesis by (rule task_then_drain [OF assms])
  qed
  ultimately show ?thesis by simp
qed

lemma reachable_from_init:
  "reachable h html s \<Longrightarrow> (page_step h)\<^sup>*\<^sup>* (init_page html) s"
  by (induction rule: reachable.induct) (auto intro: rtranclp.rtrancl_into_rtrancl)

text \<open>
  A concrete host (every URL parses, \<open>JSON.parse\<close> always fails) and the states a
  user reaches on it by typing a command and clicking; the witnesses run the page there.
\<close>

definition demo_host :: host where
  "demo_host = \<lparr>url_parses = \<lambda>_. True, json_parse = \<lambda>_. None\<rparr>"

lemma demo_typed_reachable:
  "reachable demo_host ''R'' ((init_page ''R'')\<lparr>input_value := v\<rparr>)"
proof -
  have "page_step demo_host (init_page ''R'') (page_task demo_host (Typed v) (init_page ''R''))"
    by (rule page_step.task) (simp_all add: init_page_def)
  then show ?thesis using reachable.step [OF reachable.init] by simp
qed

lemma demo_click_reachable:
  "reachable demo_host ''R'' (callXhr demo_host ((init_page ''R'')\<lparr>input_value := v\<rparr>))"
proof -
  have "page_step demo_host ((init_page ''R'')\<lparr>input_value := v\<rparr>)
      (page_task demo_host Click ((init_page ''R'')\<lparr>input_value := v\<rparr>))"
    by (rule page_step.task) (simp_all add: init_page_def)
  then show ?thesis using reachable.step [OF demo_typed_reachable] by (simp add: on_click_def)
qed

abbreviation demo_click :: "js_string \<Rightarrow> page" where
  "demo_click v \<equiv> callXhr demo_host ((init_page ''R'')\<lparr>input_value := v\<rparr>)"

lemmas demo_eval = callXhr_def xhrApi_def demo_host_def upper_eval issue_def request_eval
  browser.truncate_def showResult_def init_page_def queue_if_settled_def
  completes_if_settled_def awaiting_response_def

lemma demo_get_click:
  "jobs (demo_click ''get*abc'') = [] \<and> completed (demo_click ''get*abc'') = [] \<and>
   length (reqs (demo_click ''get*abc'')) = 1 \<and> p_req (reqs (demo_click ''get*abc'') ! 0) = Pending \<and>
   response_el (demo_click ''get*abc'') = Some (JStr ''R'') \<and>
   (\<exists>x. rq_xhr (reqs (demo_click ''get*abc'') ! 0) = Some x \<and> awaiting_response x \<and>
      onload_set x \<and> onerror_set x)"
  by (simp add: demo_eval)

lemma demo_rejected_click:
  "jobs (demo_click ''*abc'') = [ThenJob 0] \<and> completed (demo_click ''*abc'') = [0] \<and>
   length (reqs (demo_click ''*abc'')) = 1 \<and>
   p_req (reqs (demo_click ''*abc'') ! 0) = Rejected (JStr ''Please enter an http method'') \<and>
   response_el (demo_click ''*abc'') = Some (JStr ''R'')"
  by (simp add: demo_eval method_missing_msg_def)

abbreviation demo_rejected_drained :: page where
  "demo_rejected_drained \<equiv>
     run_catch 0 ((run_then 0 ((demo_click ''*abc'')\<lparr>jobs := []\<rparr>))\<lparr>jobs := []\<rparr>)"

lemma demo_rejected_drained:
  "reachable demo_host ''R'' demo_rejected_drained \<and> jobs demo_rejected_drained = [] \<and>
   completed demo_rejected_drained = [0] \<and> length (reqs demo_rejected_drained) = 1 \<and>
   p_req (reqs demo_rejected_drained ! 0) = Rejected (JStr ''Please enter an http method'')"
proof -
  let ?s0 = "demo_click ''*abc''"
  let ?s1 = "run_then 0 (?s0\<lparr>jobs := []\<rparr>)"
  have f: "jobs ?s0 = [ThenJob 0]" "completed ?s0 = [0]" "length (reqs ?s0) = 1"
    "p_req (reqs ?s0 ! 0) = Rejected (JStr ''Please enter an http method'')"
    using demo_rejected_click by simp_all
  have j1: "jobs ?s1 = [CatchJob 0]" using f by (simp add: run_then_frame)
  have "page_step demo_host ?s0 (run_job (ThenJob 0) (?s0\<lparr>jobs := []\<rparr>))"
    by (rule page_step.microtask) (rule f(1))
  then have r1: "reachable demo_host ''R'' ?s1"
    using reachable.step [OF demo_click_reachable [of "''*abc''"]] by simp
  have "page_step demo_host ?s1 (run_job (CatchJob 0) (?s1\<lparr>jobs := []\<rparr>))"
    by (rule page_step.microtask) (rule j1)
  then have "reachable demo_host ''R'' demo_rejected_drained" using reachable.step [OF r1] by simp
  then show ?thesis using f by (simp add: run_then_frame run_catch_frame)
qed

subsection \<open>Properties\<close>

lemma length_pending_display: "length (pending_display rs js) \<le> 1"
  by (induction rs js rule: pending_display.induct) auto

lemma page_inv_history:
  assumes "page_inv html s"
  shows "response_el s = (if shown s = [] then Some (JStr html) else Some (snd (last (shown s)))) \<and>
    prefix (map fst (shown s)) (completed s) \<and> length (completed s) \<le> length (shown s) + 1 \<and>
    distinct (completed s) \<and>
    (\<forall>(i, v) \<in> set (shown s). i < length (reqs s) \<and> v = outcome_value (p_req (reqs s ! i)))"
proof -
  from assms have h: "map fst (shown s) @ pending_display (reqs s) (jobs s) = completed s"
    by (simp add: page_inv_def inv_fields_def)
  have "length (completed s) \<le> length (shown s) + 1"
    using arg_cong [OF h, of length] length_pending_display [of "reqs s" "jobs s"] by simp
  moreover have "prefix (map fst (shown s)) (completed s)" using h by (metis prefixI)
  ultimately show ?thesis using assms by (simp add: page_inv_def inv_fields_def shown_ok_def)
qed

text \<open>
  C17. The display history, in every reachable state (reactions pending or not): the
  \<open>.response-data\<close> element exists and holds the value of the last \<open>genericHtml\<close> call,
  or the initial content before any; the requests shown so far are a prefix of the
  completion order, short of it by at most the one request whose reaction is still
  queued; no request completes twice; and every value shown is the outcome of the
  request it was shown for.
\<close>

theorem reachable_display_history:
  assumes "reachable h html s"
  shows "response_el s = (if shown s = [] then Some (JStr html) else Some (snd (last (shown s)))) \<and>
    prefix (map fst (shown s)) (completed s) \<and> length (completed s) \<le> length (shown s) + 1 \<and>
    distinct (completed s) \<and>
    (\<forall>(i, v) \<in> set (shown s). i < length (reqs s) \<and> v = outcome_value (p_req (reqs s ! i)))"
  by (rule page_inv_history [OF reachable_page_inv [OF assms]])

text \<open>
  C18. Concurrent requests: whenever the microtask queue is empty, the calls of
  \<open>genericHtml\<close> so far list exactly the completed requests in the order they
  completed, and the page shows the outcome (fulfilment value or rejection reason) of the
  request that completed last, or the initial content when none has.
\<close>

theorem quiescent_display:
  assumes "reachable h html s" "jobs s = []"
  shows "map fst (shown s) = completed s \<and>
    response_el s = (if completed s = [] then Some (JStr html)
                     else Some (outcome_value (p_req (reqs s ! last (completed s)))))"
  by (rule quiescent_display_eq [OF reachable_page_inv [OF assms(1)] assms(2)])

theorem quiescent_display_witness:
  "map fst (shown demo_rejected_drained) = [0] \<and>
   response_el demo_rejected_drained = Some (JStr ''Please enter an http method'')"
  using quiescent_display [of demo_host "''R''" demo_rejected_drained] demo_rejected_drained
  by simp

text \<open>
  C19. No lost and no repeated update: when the microtask queue is empty, each request
  that has completed was shown exactly once, and a request still in flight not at all.
\<close>

theorem quiescent_shown_once:
  assumes "reachable h html s" "jobs s = []" "i < length (reqs s)"
  shows "count_list (map fst (shown s)) i = (if p_req (reqs s ! i) = Pending then 0 else 1)"
proof -
  from reachable_page_inv [OF assms(1)] assms(2) have
    disp: "map fst (shown s) = completed s" and dist: "distinct (completed s)"
    and cs: "set (completed s) = settled_set (reqs s)"
    by (simp_all add: page_inv_def inv_fields_def)
  then show ?thesis using assms(3) by (simp add: count_list_distinct settled_set_def)
qed

theorem quiescent_shown_once_witness:
  "count_list (map fst (shown (callXhr demo_host ((init_page ''R'')\<lparr>input_value := ''get*abc''\<rparr>)))) 0 = 0"
proof -
  let ?s = "callXhr demo_host ((init_page ''R'')\<lparr>input_value := ''get*abc''\<rparr>)"
  have ev: "jobs ?s = [] \<and> 0 < length (reqs ?s) \<and> p_req (reqs ?s ! 0) = Pending"
    using demo_get_click by simp
  then show ?thesis
    using quiescent_shown_once [OF demo_click_reachable, of "''get*abc''" 0] by simp
qed

text \<open>
  C20. The microtask queue always drains: from every reachable state, running the queued
  reactions (a \<open>then\<close> reaction and the \<open>catch\<close> reaction it chains to) reaches a
  state with an empty queue, so the browser gets back to its task queue.
\<close>

theorem microtasks_drain:
  "reachable h html s \<Longrightarrow> \<exists>t. (page_step h)\<^sup>*\<^sup>* s t \<and> jobs t = []"
  using drain_queue [OF reachable_page_inv] by blast

theorem microtasks_drain_witness:
  "\<exists>t. (page_step demo_host)\<^sup>*\<^sup>* (callXhr demo_host ((init_page ''R'')\<lparr>input_value := ''*abc''\<rparr>)) t \<and>
     jobs t = []"
  using microtasks_drain [OF demo_click_reachable] .

text \<open>
  C21. A response is displayed: when the page is idle and the response of request \<open>i\<close>
  arrives (\<open>onload\<close> with status \<open>st\<close> and body \<open>b\<close>), running the reactions it queues
  leaves the page showing what \<open>onload\<close> settled the request's promise with: the body
  for a 2xx status, the rejection reason otherwise.
\<close>

theorem response_displayed:
  assumes "reachable h html s" "jobs s = []" "event_enabled s (Load i st b)"
  shows "\<exists>t. (page_step h)\<^sup>*\<^sup>* s t \<and> jobs t = [] \<and>
    response_el t = Some (outcome_value (onload_handler st b Pending))"
  by (rule load_then_drain [OF assms])

theorem response_displayed_witness:
  "\<exists>t. (page_step demo_host)\<^sup>*\<^sup>* (callXhr demo_host ((init_page ''R'')\<lparr>input_value := ''get*abc''\<rparr>)) t \<and>
     jobs t = [] \<and> response_el t = Some (JStr ''hello'')"
proof -
  let ?s = "callXhr demo_host ((init_page ''R'')\<lparr>input_value := ''get*abc''\<rparr>)"
  have ev: "jobs ?s = [] \<and> event_enabled ?s (Load 0 200 ''hello'')"
    using demo_get_click by auto
  have "onload_handler 200 ''hello'' Pending = Fulfilled (JStr ''hello'')"
    by (simp add: onload_handler_def)
  then show ?thesis
    using response_displayed [OF demo_click_reachable, of "''get*abc''" 0 200 "''hello''"] ev by simp
qed

text \<open>
  C26. A failed transfer is displayed: when the page is idle and the network error of
  request \<open>i\<close> arrives, running the reactions it queues leaves the page showing
  \<open>"Failed during fetching data from Api (View console for details..)"\<close>
  (\<open>Request.js\<close> lines 51--54).
\<close>

theorem network_error_displayed:
  assumes "reachable h html s" "jobs s = []" "event_enabled s (NetError i)"
  shows "\<exists>t. (page_step h)\<^sup>*\<^sup>* s t \<and> jobs t = [] \<and>
    response_el t = Some (JStr ''Failed during fetching data from Api (View console for details..)'')"
  by (rule error_then_drain [OF assms])

theorem network_error_displayed_witness:
  "\<exists>t. (page_step demo_host)\<^sup>*\<^sup>* (demo_click ''get*abc'') t \<and> jobs t = [] \<and>
     response_el t = Some (JStr ''Failed during fetching data from Api (View console for details..)'')"
proof -
  have "jobs (demo_click ''get*abc'') = [] \<and> event_enabled (demo_click ''get*abc'') (NetError 0)"
    using demo_get_click by auto
  then show ?thesis using network_error_displayed [OF demo_click_reachable, of "''get*abc''" 0] by simp
qed

theorem reachable_display_history_witness:
  "response_el (demo_click ''*abc'') = Some (JStr ''R'') \<and>
   prefix (map fst (shown (demo_click ''*abc''))) (completed (demo_click ''*abc'')) \<and>
   completed (demo_click ''*abc'') = [0]"
  using reachable_display_history [OF demo_click_reachable, of "''*abc''"] demo_rejected_click
  by (simp add: demo_eval)

end
