(* ===== verification/Sink_Spec.thy ===== *)
theory Sink_Spec
  imports Request
begin

text \<open>
  An abstract state of the page: the list of the outcomes of the requests issued so far
  (\<open>Pending\<close> while in flight) and the value on display. Three events change it: a
  request is issued (and may be rejected at once, for a missing method or an exception
  of \<open>open\<close>), the response of a request in flight arrives, or its transfer fails; the
  last two settle the request with the outcome of the code's \<open>onload\<close> or \<open>onerror\<close>
  handler and display it. Every outcome of these steps is a string or an exception
  (\<open>sink_typed\<close>), which \<open>Page_Refine\<close> transfers to the page.
\<close>

record sink =
  sk_outcomes :: "promise_state list"
  sk_display :: js_val

definition sink_init :: "js_string \<Rightarrow> sink" where
  "sink_init html = \<lparr>sk_outcomes = [], sk_display = JStr html\<rparr>"

text \<open>The outcomes of issuing a request: in flight, or rejected at once with the
  usage message or with an exception.\<close>

fun sync_outcome :: "promise_state \<Rightarrow> bool" where
  "sync_outcome Pending = True"
| "sync_outcome (Rejected (JStr m)) = (m = method_missing_msg)"
| "sync_outcome (Rejected (JExc e)) = True"
| "sync_outcome _ = False"

definition sink_issue :: "promise_state \<Rightarrow> sink \<Rightarrow> sink" where
  "sink_issue p a =
     \<lparr>sk_outcomes = sk_outcomes a @ [p],
      sk_display = (if p = Pending then sk_display a else outcome_value p)\<rparr>"

definition sink_complete :: "nat \<Rightarrow> promise_state \<Rightarrow> sink \<Rightarrow> sink" where
  "sink_complete i p a = \<lparr>sk_outcomes = (sk_outcomes a)[i := p], sk_display = outcome_value p\<rparr>"

definition in_flight :: "sink \<Rightarrow> nat \<Rightarrow> bool" where
  "in_flight a i \<longleftrightarrow> i < length (sk_outcomes a) \<and> sk_outcomes a ! i = Pending"

inductive sink_step :: "sink \<Rightarrow> sink \<Rightarrow> bool" where
  issue: "sync_outcome p \<Longrightarrow> sink_step a (sink_issue p a)"
| respond: "in_flight a i \<Longrightarrow> sink_step a (sink_complete i (onload_handler st b Pending) a)"
| fail: "in_flight a i \<Longrightarrow> sink_step a (sink_complete i (onerror_handler Pending) a)"

inductive sink_reach :: "js_string \<Rightarrow> sink \<Rightarrow> bool" for html where
  init: "sink_reach html (sink_init html)"
| step: "sink_reach html a \<Longrightarrow> sink_step a a' \<Longrightarrow> sink_reach html a'"

text \<open>What the display sink may receive: a string, or an exception (shown as its
  message); never \<open>undefined\<close>.\<close>

fun displayable :: "js_val \<Rightarrow> bool" where
  "displayable (JStr s) = True"
| "displayable (JExc e) = True"
| "displayable JUndefined = False"

fun outcome_typed :: "promise_state \<Rightarrow> bool" where
  "outcome_typed Pending = True"
| "outcome_typed (Fulfilled v) = displayable v"
| "outcome_typed (Rejected v) = displayable v"

definition sink_typed :: "sink \<Rightarrow> bool" where
  "sink_typed a \<longleftrightarrow> (\<forall>p \<in> set (sk_outcomes a). outcome_typed p) \<and> displayable (sk_display a)"

inductive_cases sink_stepE: "sink_step a a'"

subsection \<open>Facts of the specification\<close>

lemma sync_outcome_typed: "sync_outcome p \<Longrightarrow> outcome_typed p"
  by (induction p rule: sync_outcome.induct) auto

lemma handlers_typed:
  "outcome_typed (onload_handler st b Pending)" "outcome_typed (onerror_handler Pending)"
  by (simp_all add: onload_handler_def onerror_handler_def)

lemma outcome_typed_value: "outcome_typed p \<Longrightarrow> p \<noteq> Pending \<Longrightarrow> displayable (outcome_value p)"
  by (cases p) auto

lemma sink_typed_init: "sink_typed (sink_init html)"
  by (simp add: sink_typed_def sink_init_def)

lemma sink_typed_complete:
  "sink_typed a \<Longrightarrow> outcome_typed p \<Longrightarrow> p \<noteq> Pending \<Longrightarrow> sink_typed (sink_complete i p a)"
  by (auto simp: sink_typed_def sink_complete_def outcome_typed_value dest: set_update_subset_insert [THEN subsetD])

lemma sink_step_typed: "sink_step a a' \<Longrightarrow> sink_typed a \<Longrightarrow> sink_typed a'"
proof (induction rule: sink_step.induct)
  case (issue p a)
  then show ?case
    using sync_outcome_typed [OF issue(1)]
    by (auto simp: sink_typed_def sink_issue_def outcome_typed_value)
qed (simp_all add: sink_typed_complete handlers_typed onload_handler_settled onerror_handler_settled)

lemma sink_reach_typed: "sink_reach html a \<Longrightarrow> sink_typed a"
  by (induction rule: sink_reach.induct) (auto simp: sink_typed_init intro: sink_step_typed)

lemma request_sync_outcome: "request br m u d = (p, xo) \<Longrightarrow> sync_outcome p"
  by (auto simp: request_def request_executor_def split: if_splits sum.splits)

end
