(* ===== verification/Page_Refine.thy ===== *)
theory Page_Refine
  imports Page_Inv Sink_Spec
begin

text \<open>
  The mapping \<open>abs_sink\<close> from pages to the abstract states of \<open>Sink_Spec\<close>: it reads
  the outcomes off the requests' first promises and takes as displayed value the outcome
  of the request that completed last. A task of the browser is an abstract step or
  changes nothing abstract, and a reaction job changes nothing abstract, so every
  reachable page maps to a reachable abstract state. Since the abstract steps reuse the
  code's handlers, this says nothing about what the handlers compute; it carries the
  abstract typing invariant over to the page: only strings and exceptions are ever
  displayed.
\<close>

definition abs_sink :: "js_string \<Rightarrow> page \<Rightarrow> sink" where
  "abs_sink html s =
     \<lparr>sk_outcomes = map p_req (reqs s),
      sk_display = (if completed s = [] then JStr html
                    else outcome_value (p_req (reqs s ! last (completed s))))\<rparr>"

subsection \<open>The mapping on each step\<close>

lemma abs_sink_init: "abs_sink html (init_page html) = sink_init html"
  by (simp add: abs_sink_def init_page_def sink_init_def)

lemma abs_sink_eqI:
  assumes "completed t = completed s" "length (reqs t) = length (reqs s)"
    "\<And>j. p_req (reqs t ! j) = p_req (reqs s ! j)"
  shows "abs_sink html t = abs_sink html s"
  using assms by (simp add: abs_sink_def map_equality_iff)

lemma page_inv_completed_bound:
  "page_inv html s \<Longrightarrow> c \<in> set (completed s) \<Longrightarrow> c < length (reqs s)"
  by (auto simp: page_inv_def inv_fields_def settled_set_def)

lemma abs_sink_showResult:
  assumes "page_inv html s"
  shows "abs_sink html (showResult p xo s) = sink_issue p (abs_sink html s)"
proof -
  have "completed s \<noteq> [] \<Longrightarrow> last (completed s) < length (reqs s)"
    using page_inv_completed_bound [OF assms] by simp
  then show ?thesis
    by (auto simp: abs_sink_def sink_issue_def showResult_def queue_if_settled_def
        completes_if_settled_def Let_def nth_append)
qed

lemma xhrApi_Issued_request:
  "xhrApi h inp = Issued p xo \<Longrightarrow> \<exists>br m u d. request br m u d = (p, xo)"
  by (auto simp: xhrApi_def query_branch_def issue_def Let_def prod_eq_iff
      split: if_splits sum.splits option.splits)

lemma abs_sink_callXhr:
  assumes "page_inv html s"
  shows "abs_sink html (callXhr h s) = abs_sink html s \<or>
    sink_step (abs_sink html s) (abs_sink html (callXhr h s))"
proof (cases "xhrApi h (input_value s)")
  case (Issued p xo)
  then obtain br m u d where "request br m u d = (p, xo)"
    using xhrApi_Issued_request by blast
  then have "sync_outcome p" by (rule request_sync_outcome)
  then show ?thesis
    using Issued sink_step.issue [of p "abs_sink html s"]
    by (simp add: callXhr_def abs_sink_showResult [OF assms])
qed (simp add: callXhr_def)

lemma abs_sink_settle_same:
  "snd xp = p_req (reqs s ! i) \<Longrightarrow> abs_sink html (settle_entry i xp s) = abs_sink html s"
  by (rule abs_sink_eqI) (auto simp: settle_entry_def Let_def p_req_list_update)

lemma abs_sink_settle_new:
  assumes "i < length (reqs s)" "p_req (reqs s ! i) = Pending" "snd xp \<noteq> Pending"
  shows "abs_sink html (settle_entry i xp s) = sink_complete i (snd xp) (abs_sink html s)"
  using assms by (simp add: abs_sink_def sink_complete_def settle_entry_def Let_def map_update)

lemma in_flight_abs_sink:
  "i < length (reqs s) \<Longrightarrow> p_req (reqs s ! i) = Pending \<Longrightarrow> in_flight (abs_sink html s) i"
  by (simp add: in_flight_def abs_sink_def)

lemma deliver_load_snd:
  "snd (deliver_load st b (x, p)) =
     (if awaiting_response x \<and> onload_set x then onload_handler st b p else p)"
  by (simp add: deliver_load_def)

lemma deliver_error_snd:
  "snd (deliver_error (x, p)) = (if awaiting_response x \<and> onerror_set x then onerror_handler p else p)"
  by (simp add: deliver_error_def)

lemma abs_sink_net_load:
  assumes "event_enabled s (Load i st b)"
  shows "abs_sink html (net_load i st b s) = abs_sink html s \<or>
    sink_step (abs_sink html s) (abs_sink html (net_load i st b s))"
proof -
  from assms obtain x where i: "i < length (reqs s)" and x: "rq_xhr (reqs s ! i) = Some x"
    and aw: "awaiting_response x" by auto
  let ?p = "p_req (reqs s ! i)"
  show ?thesis
  proof (cases "?p = Pending \<and> onload_set x")
    case True
    then show ?thesis
      using x aw i sink_step.respond [OF in_flight_abs_sink [OF i], of html st b]
      by (simp add: net_load_def deliver_load_snd abs_sink_settle_new onload_handler_settled)
  next
    case False
    then have "snd (deliver_load st b (x, ?p)) = ?p"
      by (auto simp: deliver_load_snd handlers_keep_settled)
    with x show ?thesis by (simp add: net_load_def abs_sink_settle_same)
  qed
qed

lemma abs_sink_net_error:
  assumes "event_enabled s (NetError i)"
  shows "abs_sink html (net_error i s) = abs_sink html s \<or>
    sink_step (abs_sink html s) (abs_sink html (net_error i s))"
proof -
  from assms obtain x where i: "i < length (reqs s)" and x: "rq_xhr (reqs s ! i) = Some x"
    and aw: "awaiting_response x" by auto
  let ?p = "p_req (reqs s ! i)"
  show ?thesis
  proof (cases "?p = Pending \<and> onerror_set x")
    case True
    then show ?thesis
      using x aw i sink_step.fail [OF in_flight_abs_sink [OF i], of html]
      by (simp add: net_error_def deliver_error_snd abs_sink_settle_new onerror_handler_settled)
  next
    case False
    then have "snd (deliver_error (x, ?p)) = ?p"
      by (auto simp: deliver_error_snd handlers_keep_settled)
    with x show ?thesis by (simp add: net_error_def abs_sink_settle_same)
  qed
qed

lemma abs_sink_run_job:
  "abs_sink html (run_job j (s\<lparr>jobs := js\<rparr>)) = abs_sink html s"
  by (cases j) (auto intro: abs_sink_eqI simp: run_then_frame run_catch_frame)

lemma abs_sink_step:
  assumes "page_inv html s" "page_step h s t"
  shows "abs_sink html t = abs_sink html s \<or> sink_step (abs_sink html s) (abs_sink html t)"
  using assms(2)
proof (cases rule: page_step.cases)
  case (task e)
  then show ?thesis
  proof (cases e)
    case (Typed v)
    with task show ?thesis by (simp add: abs_sink_def)
  next
    case (KeyUp k)
    with task show ?thesis by (simp add: on_keyup_def abs_sink_callXhr [OF assms(1)])
  next
    case Click
    with task show ?thesis by (simp add: on_click_def abs_sink_callXhr [OF assms(1)])
  next
    case (Load i st b)
    with task show ?thesis using abs_sink_net_load by simp
  next
    case (NetError i)
    with task show ?thesis using abs_sink_net_error by simp
  qed
next
  case (microtask j js)
  then show ?thesis by (simp add: abs_sink_run_job)
qed

lemma reachable_abs_sink:
  "reachable h html s \<Longrightarrow> sink_reach html (abs_sink html s)"
proof (induction rule: reachable.induct)
  case (init h html)
  then show ?case by (simp add: abs_sink_init sink_reach.init)
next
  case (step h html s t)
  then show ?case
    using abs_sink_step [OF reachable_page_inv [OF step.hyps(1)] step.hyps(2)]
    by (auto intro: sink_reach.step)
qed

lemma abs_sink_outcomes [simp]:
  "length (sk_outcomes (abs_sink html s)) = length (reqs s)"
  "i < length (reqs s) \<Longrightarrow> sk_outcomes (abs_sink html s) ! i = p_req (reqs s ! i)"
  by (simp_all add: abs_sink_def)

subsection \<open>Properties\<close>

text \<open>
  C24. Only strings and exceptions reach the display: every value \<open>genericHtml\<close> has
  been called with, and the content of the \<open>.response-data\<close> element, is a string or an
  exception, never \<open>undefined\<close>.
\<close>

theorem displayed_values_typed:
  assumes "reachable h html s"
  shows "(\<exists>v. response_el s = Some v \<and> displayable v) \<and> (\<forall>x \<in> set (shown s). displayable (snd x))"
proof -
  have inv: "page_inv html s" by (rule reachable_page_inv [OF assms])
  have typed: "sink_typed (abs_sink html s)" by (rule sink_reach_typed [OF reachable_abs_sink [OF assms]])
  have sh: "\<forall>x \<in> set (shown s). displayable (snd x)"
  proof
    fix x assume x: "x \<in> set (shown s)"
    from inv have "shown_ok (reqs s) (shown s)" "map fst (shown s) @ pending_display (reqs s) (jobs s) = completed s"
      "set (completed s) = settled_set (reqs s)"
      by (simp_all add: page_inv_def inv_fields_def)
    with x have j: "fst x < length (reqs s)" "snd x = outcome_value (p_req (reqs s ! fst x))"
      "p_req (reqs s ! fst x) \<noteq> Pending"
      by (auto simp: shown_ok_def settled_set_def split: prod.splits dest!: arg_cong [where f = set])
    from typed j(1) have "outcome_typed (p_req (reqs s ! fst x))"
      by (auto simp: sink_typed_def abs_sink_def)
    with j show "displayable (snd x)" by (simp add: outcome_typed_value)
  qed
  from inv have "response_el s = (if shown s = [] then Some (JStr html) else Some (snd (last (shown s))))"
    by (simp add: page_inv_def inv_fields_def)
  with sh show ?thesis by auto
qed

theorem displayed_values_typed_witness:
  "\<exists>v. response_el (demo_click ''*abc'') = Some v \<and> displayable v"
  using displayed_values_typed [OF demo_click_reachable, of "''*abc''"] by blast

end
