(* ===== verification/Page_Handled.thy ===== *)
theory Page_Handled
  imports Page_Inv
begin

text \<open>
  Every rejection is handled (\<open>spec.md\<close> section 4.2: the outcome is always rendered,
  never left unhandled). The last promise of each request's chain, the one
  \<open>.catch(rej => genericHtml(rej))\<close> returns, is never rejected: the catch handler
  receives every rejection and, the element being present, returns normally. So once
  the reactions have run, every completed request's chain ends in a fulfilled promise
  and the browser never reports an unhandled rejection.
\<close>

fun catch_ok_p :: "promise_state \<Rightarrow> bool" where
  "catch_ok_p (Rejected e) = False"
| "catch_ok_p _ = True"

definition catch_ok_rs :: "req list \<Rightarrow> bool" where
  "catch_ok_rs rs \<longleftrightarrow> (\<forall>r \<in> set rs. catch_ok_p (p_catch r))"

definition catch_ok :: "page \<Rightarrow> bool" where
  "catch_ok s \<longleftrightarrow> catch_ok_rs (reqs s)"

lemma catch_ok_rs_update:
  "catch_ok_rs rs \<Longrightarrow> catch_ok_p (p_catch r) \<Longrightarrow> catch_ok_rs (rs[i := r])"
  by (auto simp: catch_ok_rs_def dest: set_update_subset_insert [THEN subsetD])

lemma catch_ok_rs_keep:
  assumes "catch_ok_rs rs" "p_catch r = p_catch (rs ! i)"
  shows "catch_ok_rs (rs[i := r])"
proof (cases "i < length rs")
  case True
  with assms have "catch_ok_p (p_catch r)" by (simp add: catch_ok_rs_def)
  with assms(1) show ?thesis by (rule catch_ok_rs_update)
next
  case False
  with assms(1) show ?thesis by (simp add: list_update_beyond)
qed

lemma catch_ok_rs_snoc: "catch_ok_rs rs \<Longrightarrow> catch_ok_p (p_catch r) \<Longrightarrow> catch_ok_rs (rs @ [r])"
  by (simp add: catch_ok_rs_def)

lemma catch_ok_callXhr: "catch_ok s \<Longrightarrow> catch_ok (callXhr h s)"
  by (simp add: callXhr_def showResult_def catch_ok_def Let_def catch_ok_rs_snoc split: dispatch.splits)

lemma catch_ok_settle: "catch_ok s \<Longrightarrow> catch_ok (settle_entry i xp s)"
  by (simp add: settle_entry_def Let_def catch_ok_def catch_ok_rs_keep)

lemma catch_ok_net_load: "catch_ok s \<Longrightarrow> catch_ok (net_load i st b s)"
  by (simp add: net_load_def catch_ok_settle split: option.splits)

lemma catch_ok_net_error: "catch_ok s \<Longrightarrow> catch_ok (net_error i s)"
  by (simp add: net_error_def catch_ok_settle split: option.splits)

lemma catch_ok_run_then: "catch_ok s \<Longrightarrow> catch_ok (run_then i s)"
  by (simp add: run_then_def Let_def catch_ok_def catch_ok_rs_keep)

lemma catch_ok_run_catch:
  assumes "catch_ok s" "response_el s = Some e"
  shows "catch_ok (run_catch i s)"
proof -
  have "catch_ok_p (catch_reaction (html_handler (response_el s)) p)" for p
    using assms(2) catch_reaction_present [of p e] by (cases "p = Pending") auto
  then show ?thesis using assms(1)
    by (simp add: run_catch_def Let_def catch_ok_def catch_ok_rs_update)
qed

lemma catch_ok_step:
  assumes "page_inv html s" "catch_ok s" "page_step h s t"
  shows "catch_ok t"
  using assms(3)
proof (cases rule: page_step.cases)
  case (task e)
  with assms(2) show ?thesis
    by (cases e) (simp_all add: on_keyup_def on_click_def catch_ok_def [of "s\<lparr>input_value := _\<rparr>"]
        catch_ok_callXhr catch_ok_net_load catch_ok_net_error, simp add: catch_ok_def)
next
  case (microtask j js)
  obtain e where e: "response_el s = Some e" using page_inv_element [OF assms(1)] by blast
  have "catch_ok (s\<lparr>jobs := js\<rparr>)" using assms(2) by (simp add: catch_ok_def)
  with microtask e show ?thesis
    by (cases j) (simp_all add: catch_ok_run_then catch_ok_run_catch)
qed

lemma reachable_catch_ok: "reachable h html s \<Longrightarrow> catch_ok s"
proof (induction rule: reachable.induct)
  case (init h html)
  then show ?case by (simp add: catch_ok_def catch_ok_rs_def init_page_def)
next
  case (step h html s t)
  then show ?case using catch_ok_step reachable_page_inv by blast
qed

subsection \<open>Properties\<close>

text \<open>
  C27. No unhandled rejection: when the page is idle, the promise chain of every
  completed request ends in a fulfilled promise, whether the request failed or not;
  its rejection, if any, was handled by the \<open>catch\<close> of \<open>showResult\<close>.
\<close>

theorem quiescent_no_unhandled_rejection:
  assumes "reachable h html s" "jobs s = []" "i < length (reqs s)" "p_req (reqs s ! i) \<noteq> Pending"
  shows "\<exists>v. p_catch (reqs s ! i) = Fulfilled v"
proof -
  from reachable_page_inv [OF assms(1)] assms(2) have "reactions_done (reqs s) []"
    by (simp add: page_inv_def inv_fields_def)
  with assms(3,4) have "p_catch (reqs s ! i) \<noteq> Pending" by (simp add: reactions_done_def)
  moreover from reachable_catch_ok [OF assms(1)] assms(3) have "catch_ok_p (p_catch (reqs s ! i))"
    by (simp add: catch_ok_def catch_ok_rs_def)
  ultimately show ?thesis by (cases "p_catch (reqs s ! i)") auto
qed

theorem quiescent_no_unhandled_rejection_witness:
  "\<exists>v. p_catch (reqs demo_rejected_drained ! 0) = Fulfilled v"
  using quiescent_no_unhandled_rejection [of demo_host "''R''" demo_rejected_drained 0]
    demo_rejected_drained by simp

end
