(* ===== verification/Page_Order.thy ===== *)
theory Page_Order
  imports Page_Inv
begin

text \<open>
  Ordering of concurrent requests (\<open>spec.md\<close> section 5: outcomes race to the display
  and the last to complete wins). Delivering a response changes only its own request's
  entry, and the reactions it queues change no XHR, so another request in flight still
  awaits its response afterwards. Whatever order the requests were issued in, the page
  shows the outcome of each response as it is delivered, and the one delivered last
  stays on display.
\<close>

lemma settle_entry_frame:
  "k \<noteq> i \<Longrightarrow> rq_xhr (reqs (settle_entry i xp s) ! k) = rq_xhr (reqs s ! k)"
  "length (reqs (settle_entry i xp s)) = length (reqs s)"
  by (simp_all add: settle_entry_def Let_def)

lemma net_load_frame:
  "k \<noteq> i \<Longrightarrow> rq_xhr (reqs (net_load i st b s) ! k) = rq_xhr (reqs s ! k)"
  "length (reqs (net_load i st b s)) = length (reqs s)"
  by (simp_all add: net_load_def settle_entry_frame split: option.splits)

lemma load_drain:
  assumes "reachable h html s" "jobs s = []" "event_enabled s (Load j st b)"
  shows "\<exists>t. page_step h s (net_load j st b s) \<and> (page_step h)\<^sup>*\<^sup>* (net_load j st b s) t \<and>
    reachable h html t \<and> jobs t = [] \<and>
    response_el t = Some (outcome_value (onload_handler st b Pending)) \<and>
    length (reqs t) = length (reqs s) \<and> (\<forall>k. k \<noteq> j \<longrightarrow> rq_xhr (reqs t ! k) = rq_xhr (reqs s ! k))"
proof -
  let ?s1 = "net_load j st b s"
  have step: "page_step h s ?s1"
    using page_step.task [OF assms(2) assms(3), of h] by simp
  have r1: "reachable h html ?s1" using assms(1) step by (rule reachable.step)
  have eff: "completed ?s1 = completed s @ [j]" "p_req (reqs ?s1 ! j) = onload_handler st b Pending"
    using net_load_effect [OF reachable_page_inv [OF assms(1)] assms(3)] by auto
  obtain t where t: "(page_step h)\<^sup>*\<^sup>* ?s1 t" "jobs t = []" "completed t = completed ?s1"
    "length (reqs t) = length (reqs ?s1)" "\<forall>k. p_req (reqs t ! k) = p_req (reqs ?s1 ! k)"
    "\<forall>k. rq_xhr (reqs t ! k) = rq_xhr (reqs ?s1 ! k)"
    using drain_queue [OF reachable_page_inv [OF r1], of h] by blast
  have rt: "reachable h html t" using reachable_star [OF t(1) r1] .
  from quiescent_display_eq [OF reachable_page_inv [OF rt] t(2)] t(3,5) eff
  have "response_el t = Some (outcome_value (onload_handler st b Pending))" by simp
  with step t rt show ?thesis by (auto simp: net_load_frame)
qed

lemma reachable_type_click:
  assumes "reachable h html s" "jobs s = []"
  shows "reachable h html (callXhr h (s\<lparr>input_value := v\<rparr>))"
proof -
  have "page_step h s (s\<lparr>input_value := v\<rparr>)"
    using page_step.task [OF assms(2), of "Typed v" h] by simp
  then have r: "reachable h html (s\<lparr>input_value := v\<rparr>)" by (rule reachable.step [OF assms(1)])
  have "page_step h (s\<lparr>input_value := v\<rparr>) (callXhr h (s\<lparr>input_value := v\<rparr>))"
    using page_step.task [of "s\<lparr>input_value := v\<rparr>" Click h] assms(2) by (simp add: on_click_def)
  then show ?thesis by (rule reachable.step [OF r])
qed

subsection \<open>Properties\<close>

text \<open>
  C30. Responses in any order: with two requests \<open>i \<noteq> j\<close> in flight on an idle page,
  delivering \<open>j\<close>'s response and running its reactions shows \<open>j\<close>'s outcome, after
  which \<open>i\<close> still awaits its response; delivering it and running its reactions then
  shows \<open>i\<close>'s outcome. The issue order of \<open>i\<close> and \<open>j\<close> plays no part.
\<close>

theorem responses_last_delivered_shown:
  assumes "reachable h html s" "jobs s = []" "i \<noteq> j"
    "event_enabled s (Load j stj bj)" "event_enabled s (Load i sti bi)"
  shows "\<exists>t1 t2. page_step h s (net_load j stj bj s) \<and> (page_step h)\<^sup>*\<^sup>* (net_load j stj bj s) t1 \<and>
      jobs t1 = [] \<and> response_el t1 = Some (outcome_value (onload_handler stj bj Pending)) \<and>
      event_enabled t1 (Load i sti bi) \<and>
      page_step h t1 (net_load i sti bi t1) \<and> (page_step h)\<^sup>*\<^sup>* (net_load i sti bi t1) t2 \<and>
      jobs t2 = [] \<and> response_el t2 = Some (outcome_value (onload_handler sti bi Pending))"
proof -
  obtain t1 where t1: "page_step h s (net_load j stj bj s)" "(page_step h)\<^sup>*\<^sup>* (net_load j stj bj s) t1"
    "reachable h html t1" "jobs t1 = []"
    "response_el t1 = Some (outcome_value (onload_handler stj bj Pending))"
    "length (reqs t1) = length (reqs s)" "\<forall>k. k \<noteq> j \<longrightarrow> rq_xhr (reqs t1 ! k) = rq_xhr (reqs s ! k)"
    using load_drain [OF assms(1,2,4)] by blast
  have en: "event_enabled t1 (Load i sti bi)" using assms(3,5) t1(6,7) by auto
  from load_drain [OF t1(3,4) en] t1 en show ?thesis by blast
qed

theorem responses_last_delivered_shown_witness:
  "\<exists>t1 t2.
     page_step demo_host (callXhr demo_host ((demo_click ''get*a'')\<lparr>input_value := ''get*b''\<rparr>))
       (net_load 1 200 ''second'' (callXhr demo_host ((demo_click ''get*a'')\<lparr>input_value := ''get*b''\<rparr>))) \<and>
     (page_step demo_host)\<^sup>*\<^sup>*
       (net_load 1 200 ''second'' (callXhr demo_host ((demo_click ''get*a'')\<lparr>input_value := ''get*b''\<rparr>))) t1 \<and>
     jobs t1 = [] \<and> response_el t1 = Some (JStr ''second'') \<and> event_enabled t1 (Load 0 200 ''first'') \<and>
     page_step demo_host t1 (net_load 0 200 ''first'' t1) \<and>
     (page_step demo_host)\<^sup>*\<^sup>* (net_load 0 200 ''first'' t1) t2 \<and>
     jobs t2 = [] \<and> response_el t2 = Some (JStr ''first'')"
proof -
  let ?s = "callXhr demo_host ((demo_click ''get*a'')\<lparr>input_value := ''get*b''\<rparr>)"
  have j1: "jobs (demo_click ''get*a'') = []" by (simp add: demo_eval)
  have r: "reachable demo_host ''R'' ?s"
    using reachable_type_click [OF demo_click_reachable j1] .
  have ev: "jobs ?s = [] \<and> event_enabled ?s (Load 1 200 ''second'') \<and> event_enabled ?s (Load 0 200 ''first'')"
    by (simp add: demo_eval nth_append)
  have o: "onload_handler 200 b Pending = Fulfilled (JStr b)" for b
    by (simp add: onload_handler_def)
  show ?thesis
    using responses_last_delivered_shown [OF r, of 0 1 200 "''second''" 200 "''first''"] ev o by simp
qed

end
