(* ===== verification/Spec2Isabelle.thy ===== *)
theory Spec2Isabelle
  imports Page_Refine Page_Handled Page_Order
begin

text \<open>
  \<^bold>\<open>A verified model of \<open>src/githubAPI/javascript/Request.js\<close>.\<close>

  \<^emph>\<open>The program.\<close> \<open>Request.js\<close> is one immediately invoked function. It defines
  \<open>genericHtml\<close> (replace the \<open>.response-data\<close> element by a new one holding a text),
  \<open>showResult\<close> (attach \<open>then(genericHtml)\<close> and \<open>catch(genericHtml)\<close> to a promise),
  \<open>xhrApi\<close> (split the input text on \<open>*\<close> and either issue a \<open>GET\<close> with a query string
  built by \<open>queryStringified\<close> from a JSON object, or issue the uppercased method with a
  URL and a payload through \<open>request\<close>), \<open>request\<close> (wrap one \<open>XMLHttpRequest\<close> in a
  promise whose \<open>onload\<close> handler resolves or rejects it by the status), \<open>callXhr\<close>
  (read the input field and call \<open>xhrApi\<close>), and the \<open>keyup\<close> (Enter) and \<open>click\<close>
  listeners that call \<open>callXhr\<close>. \<open>Request.test.js\<close> is a Jest suite written against
  a \<open>Request.get(...)\<close> interface.

  \<^emph>\<open>Theories and correspondence.\<close>
  \<^item> \<open>Prelude\<close>: the lemma collections \<open>js_simps\<close> and \<open>page_simps\<close>, the types
    \<open>js_string\<close> (strings of code points U+0000..U+00FF) and \<open>http_status\<close> (a
    \<open>16 word\<close>, the \<open>unsigned short\<close> of \<open>xhr.status\<close>), array reads \<open>js_nth\<close> and
    \<open>Array.prototype.join\<close> as \<open>join_with\<close>.
  \<^item> \<open>Js_String\<close>: the string built-ins the code calls: \<open>split\<close> (\<open>js_split\<close>),
    \<open>toUpperCase\<close> (\<open>js_toUpperCase\<close>), \<open>slice\<close> (\<open>js_slice\<close>) and integral
    Number-to-string (\<open>dec_string\<close>), with split/join inversion and the digit lemmas.
  \<^item> \<open>Promise\<close>: JavaScript values and exceptions (\<open>js_val\<close>, \<open>js_exc\<close>), promise
    states and the settle-once \<open>resolve_p\<close>/\<open>reject_p\<close>, and the reactions
    \<open>then_reaction\<close>/\<open>catch_reaction\<close> that \<open>showResult\<close> chains.
  \<^item> \<open>Xhr\<close>: the part of the XMLHttpRequest standard the code uses: the \<open>xhr\<close>
    record, \<open>xhr_open\<close> (method token check, forbidden methods, normalisation, URL
    parse through the \<open>browser\<close> parameter) and \<open>xhr_send\<close> (state check, no body for
    GET/HEAD), and \<open>xhr_finish\<close>.
  \<^item> \<open>Request\<close>: \<open>request\<close> (lines 25-56): \<open>request_data\<close>, the empty-method
    rejection, \<open>request_url\<close>, \<open>request_executor\<close> (open, onload, send, onerror in
    the code's order), \<open>onload_handler\<close> (lines 39-48, with the status compared as a
    16-bit word), \<open>onerror_handler\<close>, and the delivery of a response or a network error
    (\<open>deliver_load\<close>, \<open>deliver_error\<close>).
  \<^item> \<open>Json\<close>, \<open>Uri\<close>, \<open>Query\<close>: JSON values and \<open>Object.keys\<close> order (\<open>own_keys\<close>:
    array-index keys ascending, then the others in insertion order), String coercion,
    \<open>encodeURIComponent\<close> over UTF-8 octets (\<open>8 word\<close>) with its decoder \<open>uri_decode\<close>,
    and \<open>queryStringified\<close> (lines 58-64) with the loop \<open>qs_loop\<close> of line 61.
  \<^item> \<open>Adapter\<close>: \<open>xhrApi\<close> (lines 66-70) over a \<open>host\<close> (a \<open>browser\<close> extended with
    the \<open>JSON.parse\<close> it calls), returning a \<open>dispatch\<close>: the exception thrown, or the
    promise issued and its request object.
  \<^item> \<open>Page\<close>: the page state (\<open>page\<close>: input value, the \<open>.response-data\<close> element,
    the requests issued with their promises and reactions, the microtask queue, the
    completion order and the log of \<open>genericHtml\<close> calls), \<open>genericHtml\<close>,
    \<open>showResult\<close>, \<open>callXhr\<close>, \<open>on_keyup\<close>, \<open>on_click\<close>, the delivery tasks
    \<open>net_load\<close>/\<open>net_error\<close> and the reaction jobs, composed into the event loop
    \<open>page_step\<close> (a task runs only on an empty microtask queue) and \<open>reachable\<close>.
  \<^item> \<open>Page_Inv\<close>: the page invariant \<open>page_inv\<close>, its preservation by every step,
    and the display theorems.
  \<^item> \<open>Sink_Spec\<close>: an abstract state of the page (the outcomes of the requests issued and
    the value on display) with its steps (issue, respond, fail), in which every outcome
    is a string or an exception (\<open>sink_typed\<close>).
  \<^item> \<open>Page_Refine\<close>: the mapping \<open>abs_sink\<close> from pages to abstract states and the
    simulation lemmas, through which the page inherits \<open>sink_typed\<close>: only strings and
    exceptions are ever displayed. The abstract steps reuse the code's handlers, so the
    mapping serves that typing argument and is not a specification of the handlers.
  \<^item> \<open>Page_Handled\<close>: the invariant \<open>catch_ok\<close> that the last promise of every chain is
    never rejected.
  \<^item> \<open>Page_Order\<close>: the frame of a response task (it changes only its own request) and
    two responses delivered in either order.
  \<^item> This theory: the contract of \<open>Request.test.js\<close> confronted with the code, an
    end-to-end run of the page, and the query command followed from the text field
    through \<open>xhrApi\<close>, \<open>queryStringified\<close> and \<open>request\<close> to the XHR it opens.

  \<^emph>\<open>What is proved.\<close> The status mapping of \<open>onload\<close> on every branch and word
  bound; the synchronous rejection for an empty method; that an empty or missing URL
  sends the request to the relative URL \<open>"undefined"\<close>; that \<open>request\<close> opens and
  sends or throws exactly the exceptions \<open>open\<close> raises; that a request settles on its
  response; the equivalence of \<open>queryStringified\<close> with a
  specification by key list, its round trip through a query parser, and its result on JSON values other than objects (strings and arrays give index keys,
  numbers, booleans and \<open>null\<close> no query);
  the two branches of \<open>xhrApi\<close> and its corner cases (payload past the third \<open>*\<close>
  dropped, case-sensitive \<open>query\<close>, missing JSON throws, empty method rejects); the page
  invariant over all reachable states (interleaved requests, responses, errors and
  reactions), from which: in every state the element holds the last value shown and the
  requests shown are a prefix of the completion order, an idle page shows the outcome of
  the request completed last, each completed request is shown exactly once, the
  microtask queue always drains, and a response or a network error arriving at an idle
  page is displayed; only strings and exceptions are displayed; no rejection is left
  unhandled; with two requests in flight the response delivered last is the one shown,
  whatever the issue order. The code never produces the rejection messages the test
  suite expects. The URL built by \<open>queryStringified\<close> has a length
  bounded by the pairs it encodes (\<open>Uri\<close> shows that each character's octets are valid
  UTF-8 and that \<open>encodeURIComponent\<close> at most multiplies a length by six).

  \<^emph>\<open>Bounds.\<close> A status is a 16-bit word, compared without wrap-around (lemmas
  \<open>word16_le_iff_unat\<close>), so its decimal text has at most five digits.
  A request queues at most two reaction jobs (its \<open>then\<close> and the chained \<open>catch\<close>),
  so draining the queue takes at most two microtask steps; no fuel is needed: every
  recursion is structural or has a measure (\<open>uri_decode\<close>).

  \<^emph>\<open>Not modelled.\<close> \<open>console.log\<close> (output only); \<open>JSON.parse\<close> and URL parsing,
  which are parameters of the host (\<open>json_parse\<close>, \<open>url_parses\<close>); the DOM beyond
  the one element and the input field; JSON numbers other than integers; characters
  beyond U+00FF (the capitals of U+00B5 and U+00FF lie outside the alphabet and are
  kept); the network itself, which is the nondeterministic choice of the \<open>Load\<close> and
  \<open>NetError\<close> events; \<open>event.preventDefault()\<close> in the \<open>keyup\<close> listener, whose
  effect (no default action for the key) concerns no state of the model; of
  \<open>Request.test.js\<close>, the success objects its fake-server block expects (the code has
  no such value), its XMLHttpRequest-behaviour block and the sinon server itself. The
  suite calls a \<open>Request.get(...)\<close> interface that \<open>Request.js\<close>, an immediately
  invoked function exporting nothing, does not define, so it cannot exercise the code;
  only the rejection messages of its fake-server blocks are compared with the code.
\<close>

subsection \<open>The test suite's contract\<close>

text \<open>
  \<open>Request.test.js\<close> (block "not successful", lines 142-172) expects a rejection with
  \<open>"404 Not Found"\<close> for the statuses 404 and 502 and with \<open>"Process Failed <status>"\<close>
  for 301 and 102; \<open>test_expected_rejection\<close> extends these four cases to every status
  of their range. (Lines 126-138 expect \<open>"404 Not Found"\<close> too, for requests without a
  URL or with an unknown method, which are not a matter of status.)
\<close>

definition test_expected_rejection :: "http_status \<Rightarrow> js_string option" where
  "test_expected_rejection st =
     (if 400 \<le> st then Some ''404 Not Found''
      else if st < 200 \<or> 300 \<le> st then Some (''Process Failed '' @ status_text st)
      else None)"

lemma last_not_found_differs:
  "xs @ '' NOT FOUND'' \<noteq> ''404 Not Found''"
proof
  assume "xs @ '' NOT FOUND'' = ''404 Not Found''"
  then have "last (xs @ '' NOT FOUND'') = last ''404 Not Found''" by simp
  then show False by simp
qed

text \<open>
  C22. The code meets none of the suite's rejection expectations: for every status for
  which the suite expects a rejection, the promise \<open>onload\<close> settles is not rejected
  with the expected message (the code rejects with \<open>"<status> NOT FOUND"\<close> from 400
  on and resolves below 200 and from 300 to 399).
\<close>

theorem test_rejections_unmet:
  assumes "test_expected_rejection st = Some r"
  shows "onload_handler st b Pending \<noteq> Rejected (JStr r)"
  using assms last_not_found_differs [of "status_text st"]
  by (auto simp: test_expected_rejection_def onload_handler_def split: if_splits)

theorem test_rejections_unmet_witness:
  "test_expected_rejection 404 = Some ''404 Not Found'' \<and>
   onload_handler 404 ''x'' Pending \<noteq> Rejected (JStr ''404 Not Found'')"
  using test_rejections_unmet [of 404 "''404 Not Found''" "''x''"]
  by (simp add: test_expected_rejection_def)

lemma status_text_404: "status_text 404 = ''404''"
  by (simp add: status_text_def dec_string_eval)

text \<open>
  An end-to-end run of the page: the user types \<open>get*abc\<close> and clicks, the server
  answers 404, and once the reactions have run the page shows \<open>404 NOT FOUND\<close>.
\<close>

theorem page_shows_not_found:
  "\<exists>t. (page_step demo_host)\<^sup>*\<^sup>* (init_page ''R'') t \<and> jobs t = [] \<and>
     response_el t = Some (JStr ''404 NOT FOUND'')"
proof -
  let ?s = "callXhr demo_host ((init_page ''R'')\<lparr>input_value := ''get*abc''\<rparr>)"
  have r: "reachable demo_host ''R'' ?s" by (rule demo_click_reachable)
  have ev: "jobs ?s = [] \<and> event_enabled ?s (Load 0 404 ''{}'')"
    using demo_get_click by auto
  have "onload_handler 404 ''{}'' Pending = Rejected (JStr ''404 NOT FOUND'')"
    by (simp add: onload_handler_def status_text_404)
  then obtain t where "(page_step demo_host)\<^sup>*\<^sup>* ?s t" "jobs t = []"
      "response_el t = Some (JStr ''404 NOT FOUND'')"
    using load_then_drain [OF r, of 0 404 "''{}''"] ev by auto
  moreover have "(page_step demo_host)\<^sup>*\<^sup>* (init_page ''R'') ?s"
    by (rule reachable_from_init [OF r])
  ultimately show ?thesis by (meson rtranclp_trans)
qed

subsection \<open>The query command through the page\<close>

lemma get_method_ok: "is_method ''GET''" "\<not> forbidden_method ''GET''"
  by (simp_all add: xhr_eval)

text \<open>
  C29. Composition of the listener, the adapter, the query-string builder and the
  request: when the field holds \<open>query*url*json\<close> and the JSON parses, \<open>callXhr\<close>
  adds one request in flight to the page, whose XHR was opened with \<open>GET\<close> and the URL
  \<open>queryStringified(url, parsed)\<close> and sent no body.
\<close>

theorem page_query_command:
  assumes "CHR ''*'' \<notin> set u" "CHR ''*'' \<notin> set j" "json_parse h j = Some q"
    "url_parses h (url_arg_string (request_url (Some (queryStringified u q))))"
  shows "\<exists>x. callXhr h (s\<lparr>input_value := ''query*'' @ u @ ''*'' @ j\<rparr>) =
      showResult Pending (Some x) (s\<lparr>input_value := ''query*'' @ u @ ''*'' @ j\<rparr>) \<and>
    req_method x = ''GET'' \<and> req_url x = request_url (Some (queryStringified u q)) \<and>
    req_body x = None \<and> awaiting_response x"
  using assms split3_star [of "''query''" u j] get_method_ok
  by (intro exI [where x = "\<lparr>ready = OPENED, req_method = ''GET'',
      req_url = request_url (Some (queryStringified u q)), req_async = True, send_flag = True,
      req_body = None, onload_set = True, onerror_set = True\<rparr>"])
     (simp add: callXhr_def xhrApi_def query_branch_def parse_arg_def issue_def request_def
      request_executor_def xhr_open_def xhr_send_def new_xhr_def awaiting_response_def
      browser.truncate_def normalize_method_def byte_upper_def char_of_eq_iff)

theorem page_query_command_witness:
  "\<exists>x. callXhr \<lparr>url_parses = \<lambda>_. True, json_parse = \<lambda>_. Some (JObject [(''x'', JString ''1'')])\<rparr>
        ((init_page ''R'')\<lparr>input_value := ''query*abc*{}''\<rparr>) =
      showResult Pending (Some x) ((init_page ''R'')\<lparr>input_value := ''query*abc*{}''\<rparr>) \<and>
    req_method x = ''GET'' \<and> req_url x = Some ''abc?x=1'' \<and> req_body x = None \<and> awaiting_response x"
proof -
  have q: "queryStringified ''abc'' (JObject [(''x'', JString ''1'')]) = ''abc?x=1''"
    by (simp add: query_eval)
  show ?thesis
    using page_query_command [of "''abc''" "''{}''"
        "\<lparr>url_parses = \<lambda>_. True, json_parse = \<lambda>_. Some (JObject [(''x'', JString ''1'')])\<rparr>"
        "JObject [(''x'', JString ''1'')]" "init_page ''R''"] q
    by (simp add: request_url_def)
qed

end
